theory Spec2Isabelle
  imports Complex_Main "HOL-Library.Word"
begin

section \<open>Base64 payloads\<close>

text \<open>
  Audio payloads travel as base64 strings. The relay decodes them with
  \<^verbatim>\<open>Buffer.from(s, 'base64')\<close> and encodes with \<^verbatim>\<open>buf.toString('base64')\<close>. Both are
  library functions of the runtime; they are written out here so that byte lengths can be
  computed. The decoder is the forgiving one of the runtime: characters outside the
  alphabet are skipped, the URL-safe characters are accepted, and decoding stops at the
  first padding character. A trailing group of two or three characters yields one or two
  bytes; a single trailing character yields none.
\<close>

type_synonym byte = "8 word"

definition b64char :: "nat \<Rightarrow> char" where
  "b64char n =
     (if n < 26 then char_of (65 + n)
      else if n < 52 then char_of (71 + n)
      else if n < 62 then char_of (n - 4)
      else if n = 62 then CHR ''+''
      else CHR ''/'')"

definition unbase64 :: "char \<Rightarrow> nat option" where
  "unbase64 c =
     (let k = (of_char c :: nat) in
      if 65 \<le> k \<and> k \<le> 90 then Some (k - 65)
      else if 97 \<le> k \<and> k \<le> 122 then Some (k - 71)
      else if 48 \<le> k \<and> k \<le> 57 then Some (k + 4)
      else if c = CHR ''+'' \<or> c = CHR ''-'' then Some 62
      else if c = CHR ''/'' \<or> c = CHR ''_'' then Some 63
      else None)"

fun sextets :: "string \<Rightarrow> nat list" where
  "sextets [] = []"
| "sextets (c # cs) =
     (case unbase64 c of
        Some v \<Rightarrow> v # sextets cs
      | None \<Rightarrow> if c = CHR ''='' then [] else sextets cs)"

fun decode_groups :: "nat list \<Rightarrow> byte list" where
  "decode_groups (a # b # c # d # rest) =
     of_nat (a * 4 + b div 16) # of_nat ((b mod 16) * 16 + c div 4)
       # of_nat ((c mod 4) * 64 + d) # decode_groups rest"
| "decode_groups [a, b, c] =
     [of_nat (a * 4 + b div 16), of_nat ((b mod 16) * 16 + c div 4)]"
| "decode_groups [a, b] = [of_nat (a * 4 + b div 16)]"
| "decode_groups _ = []"

definition b64decode :: "string \<Rightarrow> byte list" where
  "b64decode s = decode_groups (sextets s)"

fun b64encode :: "byte list \<Rightarrow> string" where
  "b64encode (x # y # z # rest) =
     b64char (unat x div 4) # b64char ((unat x mod 4) * 16 + unat y div 16)
       # b64char ((unat y mod 16) * 4 + unat z div 64) # b64char (unat z mod 64)
       # b64encode rest"
| "b64encode [x, y] =
     [b64char (unat x div 4), b64char ((unat x mod 4) * 16 + unat y div 16),
      b64char ((unat y mod 16) * 4), CHR ''='']"
| "b64encode [x] =
     [b64char (unat x div 4), b64char ((unat x mod 4) * 16), CHR ''='', CHR ''='']"
| "b64encode [] = []"

text \<open>The six-bit values the encoder emits, before they are mapped to characters.\<close>

fun enc_sextets :: "byte list \<Rightarrow> nat list" where
  "enc_sextets (x # y # z # rest) =
     unat x div 4 # ((unat x mod 4) * 16 + unat y div 16)
       # ((unat y mod 16) * 4 + unat z div 64) # (unat z mod 64) # enc_sextets rest"
| "enc_sextets [x, y] =
     [unat x div 4, (unat x mod 4) * 16 + unat y div 16, (unat y mod 16) * 4]"
| "enc_sextets [x] = [unat x div 4, (unat x mod 4) * 16]"
| "enc_sextets [] = []"


section \<open>StreamSocket: the transport of one call leg\<close>

datatype ReadyState = CONNECTING | OPEN | CLOSING | CLOSED

text \<open>
  \<^verbatim>\<open>WebSocket.close()\<close> of the socket library: a closed socket stays closed, any other
  one starts its closing handshake.
\<close>

definition ws_close :: "ReadyState \<Rightarrow> ReadyState" where
  "ws_close rs = (if rs = CLOSED then CLOSED else CLOSING)"

text \<open>
  The frames of the media-stream protocol after \<^verbatim>\<open>JSON.parse\<close>. Only the fields
  that the code reads are kept. \<open>customParameters\<close> keeps the string-valued entries of the
  record; the route ignores a \<open>from\<close> that is not a string.
\<close>

datatype AudioMessage =
    StartMsg string "string \<rightharpoonup> string"
  | MediaMsg string string
  | StopMsg "string option"
  | ConnectedMsg
  | MarkMsg
  | UnknownMsg

text \<open>What arrives on the socket: a frame that parses, or one on which \<open>parse\<close> throws.\<close>

datatype frame = Parsed AudioMessage | Unparseable

type_synonym listener = nat

record StreamSocket =
  socket :: "ReadyState option"
  pingInterval :: bool
  streamSid :: "string option"
  ss_from :: "string option"
  onStartCallback :: "listener list"
  onConnectedCallback :: "listener list"
  onMediaCallback :: "listener list"
  onStopCallback :: "listener list"

text \<open>\<open>pingInterval\<close> is true while the keep-alive timer of the constructor is running.\<close>

definition ss_close :: "StreamSocket \<Rightarrow> StreamSocket" where
  "ss_close ss = ss\<lparr>pingInterval := False, socket := map_option ws_close (socket ss)\<rparr>"

definition onConnected :: "listener \<Rightarrow> StreamSocket \<Rightarrow> StreamSocket" where
  "onConnected cb ss = ss\<lparr>onConnectedCallback := onConnectedCallback ss @ [cb]\<rparr>"

definition onStart :: "listener \<Rightarrow> StreamSocket \<Rightarrow> StreamSocket" where
  "onStart cb ss = ss\<lparr>onStartCallback := onStartCallback ss @ [cb]\<rparr>"

definition onMedia :: "listener \<Rightarrow> StreamSocket \<Rightarrow> StreamSocket" where
  "onMedia cb ss = ss\<lparr>onMediaCallback := onMediaCallback ss @ [cb]\<rparr>"

definition onStop :: "listener \<Rightarrow> StreamSocket \<Rightarrow> StreamSocket" where
  "onStop cb ss = ss\<lparr>onStopCallback := onStopCallback ss @ [cb]\<rparr>"

text \<open>
  A listener is a function of the host program. Its effect on the transport it is
  registered on is given by a parameter \<open>sem\<close>: \<open>sem cb m ss\<close> is the transport after
  listener \<open>cb\<close> has run on message \<open>m\<close>. An invocation records the kind of event, the
  listener, the message it was given and the transport as the listener found it.
\<close>

datatype kind = KStart | KMedia | KStop | KConnected

type_synonym sem = "listener \<Rightarrow> AudioMessage \<Rightarrow> StreamSocket \<Rightarrow> StreamSocket"

type_synonym invocation = "kind \<times> listener \<times> AudioMessage \<times> StreamSocket"

text \<open>
  \<^verbatim>\<open>callbacks.map((cb) => cb(mk(this)))\<close>: the listeners of the array as it was when the
  call began, in registration order; the message is built anew for each listener.
  Listeners are taken to return normally (an exception would end the dispatch and be
  logged by \<open>onMessage\<close>).
\<close>

fun dispatch ::
  "sem \<Rightarrow> kind \<Rightarrow> (StreamSocket \<Rightarrow> AudioMessage) \<Rightarrow> listener list \<Rightarrow> StreamSocket
    \<Rightarrow> invocation list \<times> StreamSocket" where
  "dispatch sem k mk [] ss = ([], ss)"
| "dispatch sem k mk (cb # cbs) ss =
     (let r = dispatch sem k mk cbs (sem cb (mk ss) ss)
      in ((k, cb, mk ss, ss) # fst r, snd r))"

fun onMessage :: "sem \<Rightarrow> frame \<Rightarrow> StreamSocket \<Rightarrow> invocation list \<times> StreamSocket" where
  "onMessage sem Unparseable ss = ([], ss)"
| "onMessage sem (Parsed (StartMsg sid ps)) ss =
     (let r = dispatch sem KStart (\<lambda>_. StartMsg sid ps) (onStartCallback ss) ss
      in (fst r, (snd r)\<lparr>streamSid := Some sid\<rparr>))"
| "onMessage sem (Parsed (MediaMsg ts p)) ss =
     dispatch sem KMedia (\<lambda>_. MediaMsg ts p) (onMediaCallback ss) ss"
| "onMessage sem (Parsed (StopMsg f)) ss =
     (let ss1 = ss\<lparr>onMediaCallback := [], onStartCallback := [], onConnectedCallback := []\<rparr>
      in dispatch sem KStop (\<lambda>s. StopMsg (ss_from s)) (onStopCallback ss1) ss1)"
| "onMessage sem (Parsed ConnectedMsg) ss =
     dispatch sem KConnected (\<lambda>_. ConnectedMsg) (onConnectedCallback ss) ss"
| "onMessage sem (Parsed MarkMsg) ss = ([], ss)"
| "onMessage sem (Parsed UnknownMsg) ss = ([], ss)"

fun frames :: "sem \<Rightarrow> frame list \<Rightarrow> StreamSocket \<Rightarrow> invocation list \<times> StreamSocket" where
  "frames sem [] ss = ([], ss)"
| "frames sem (f # fs) ss =
     (let r1 = onMessage sem f ss; r2 = frames sem fs (snd r1)
      in (fst r1 @ fst r2, snd r2))"

text \<open>
  The listeners of the \<^verbatim>\<open>/intercept\<close> route, as far as the transport they are
  registered on is concerned. What they find in the route's map of relays is a parameter.

  The start listener returns at once unless the start frame carries a non-empty \<open>from\<close>.
  For an inbound stream it stores the number in \<open>ss.from\<close> (and creates the relay). For
  an outbound stream it stores the number too and, when the map holds a relay for the
  number (\<open>found\<close>; such a relay has its caller transport attached), attaches the
  transport as the agent's and calls \<open>start()\<close>, which registers the relay's media
  listener, listener 1, on the transport.
\<close>

definition intercept_onStart :: "bool \<Rightarrow> AudioMessage \<Rightarrow> StreamSocket \<Rightarrow> StreamSocket" where
  "intercept_onStart found m ss =
     (case m of
        StartMsg sid ps \<Rightarrow>
          (case ps ''from'' of
             None \<Rightarrow> ss
           | Some f \<Rightarrow>
               if f = [] then ss
               else if ps ''direction'' = Some ''inbound'' then ss\<lparr>ss_from := Some f\<rparr>
               else if ps ''direction'' = Some ''outbound''
               then (if found then onMedia 1 (ss\<lparr>ss_from := Some f\<rparr>)
                     else ss\<lparr>ss_from := Some f\<rparr>)
               else ss)
      | _ \<Rightarrow> ss)"

text \<open>
  The stop listener returns at once unless the message carries a non-empty \<open>from\<close>.
  When the map holds a relay for the number and that relay has this transport attached
  (\<open>held\<close>), the relay's \<open>close()\<close> closes the transport; otherwise the transport is
  left alone.
\<close>

definition intercept_onStop :: "bool \<Rightarrow> AudioMessage \<Rightarrow> StreamSocket \<Rightarrow> StreamSocket" where
  "intercept_onStop held m ss =
     (case m of
        StopMsg (Some f) \<Rightarrow> if f \<noteq> [] \<and> held then ss_close ss else ss
      | _ \<Rightarrow> ss)"

text \<open>
  The route as a listener semantics: listener 0 is the route's start listener, listener 2
  its stop listener; listener 1, the media listener of the relay, sends on the other
  transport and on the backend connection and leaves this transport alone.
\<close>

definition route_sem :: "bool \<Rightarrow> bool \<Rightarrow> sem" where
  "route_sem found held cb m ss =
     (if cb = 0 then intercept_onStart found m ss
      else if cb = 2 then intercept_onStop held m ss
      else ss)"

text \<open>
  A listener semantics in which no listener, when it is given a stop message, touches the
  three listener arrays a stop clears. Listeners may register what they like on other
  messages, as the route's start listener does.
\<close>

definition quiet_on_stop :: "sem \<Rightarrow> bool" where
  "quiet_on_stop sem \<longleftrightarrow>
     (\<forall>cb g ss. onMediaCallback (sem cb (StopMsg g) ss) = onMediaCallback ss
        \<and> onStartCallback (sem cb (StopMsg g) ss) = onStartCallback ss
        \<and> onConnectedCallback (sem cb (StopMsg g) ss) = onConnectedCallback ss)"

definition no_listeners :: "StreamSocket \<Rightarrow> bool" where
  "no_listeners ss \<longleftrightarrow>
     onMediaCallback ss = [] \<and> onStartCallback ss = [] \<and> onConnectedCallback ss = []"


section \<open>AudioInterceptor: the translation relay\<close>

text \<open>
  The class keeps every per-leg field twice, \<^verbatim>\<open>#callerX\<close> and \<^verbatim>\<open>#agentX\<close>, and the two
  handlers of backend messages are mirror images of each other. The fields are modelled as
  functions of the leg: \<open>translationActive w Caller\<close> is \<^verbatim>\<open>#callerTranslationActive\<close>.
  The two \<^verbatim>\<open>StreamSocket\<close> objects are shared with the route, so the relay holds
  references into a store \<open>heap\<close>. Timestamps are the integers \<^verbatim>\<open>Date.getTime()\<close>
  returns; durations and means are numbers of the runtime, taken as reals.
\<close>

datatype leg = Caller | Agent

fun other :: "leg \<Rightarrow> leg" where
  "other Caller = Agent"
| "other Agent = Caller"

type_synonym sock_ref = nat

record BufferedMessage =
  message_id :: string
  first_audio_buffer_add_time :: "int option"
  vad_speech_stopped_time :: int

record OutputState =
  currentStart :: "int option"
  currentDurationMs :: real
  lastStart :: "int option"
  lastDurationMs :: "real option"

definition initialOutputState :: OutputState where
  "initialOutputState =
     \<lparr>currentStart = None, currentDurationMs = 0, lastStart = None, lastDurationMs = None\<rparr>"

text \<open>
  Messages of the backend, by their \<open>type\<close> field, with the fields the relay reads
  (an audio delta carries its payload). \<open>Malformed\<close> is a message on which
  \<^verbatim>\<open>JSON.parse\<close> throws.
\<close>

datatype OpenAIMessage =
    ResponseCreated "string option"
  | ResponseDone
  | ResponseAudioDone
  | SpeechStarted
  | SpeechStopped string
  | AudioDelta string
  | OtherMessage
  | Malformed

datatype ClientEvent =
    SessionUpdate
  | InputAudioBufferAppend string
  | InputAudioBufferClear

text \<open>
  Log lines of level warn and error, the timing line and the report of \<open>close\<close>. The
  remaining info and debug lines carry no decision and are left out.
\<close>

datatype log_entry =
    MissingTimingData leg "int option" "int option"
  | TranslationTiming leg int int int int int
  | ExcessiveDelay leg int
  | ClearedInputBuffer leg
  | WebSocketNotOpen
  | SocketNotAvailable
  | OpenAINotAvailable leg
  | InterruptionDetected leg string int
  | ErrorProcessingMessage leg
  | AverageTimeToFirstAudioBufferAdd leg real

text \<open>
  What a handler does to the outside: a message sent on a leg's backend connection, a
  media frame (stream id and payload) sent on a transport, a log line.
\<close>

datatype effect =
    OpenAISend leg ClientEvent
  | StreamSend sock_ref "string option" string
  | Log log_entry

text \<open>The exception a handler can raise: a call of something that is not a function.\<close>

datatype js_error = TypeError

record AudioInterceptor =
  FORWARD_AUDIO_BEFORE_TRANSLATION :: string
  streamSocket :: "leg \<Rightarrow> sock_ref option"
  openAISocket :: "leg \<Rightarrow> ReadyState option"
  openAIPingInterval :: "leg \<Rightarrow> bool"
  agentFirstAudioTime :: "int option"
  messages :: "leg \<Rightarrow> BufferedMessage list option"
  translationActive :: "leg \<Rightarrow> bool"
  activeResponseId :: "leg \<Rightarrow> string option"
  lastSpeechTimestamp :: "leg \<Rightarrow> int option"
  translationStartTime :: "leg \<Rightarrow> int option"
  speechStartTimestamp :: "leg \<Rightarrow> int option"
  outputState :: "leg \<Rightarrow> OutputState"
  heap :: "sock_ref \<Rightarrow> StreamSocket"

text \<open>
  The constructor: both backend connections are created (still connecting) with their
  keep-alive timers running; no transport is attached yet.
\<close>

definition new_AudioInterceptor :: "string \<Rightarrow> (sock_ref \<Rightarrow> StreamSocket) \<Rightarrow> AudioInterceptor" where
  "new_AudioInterceptor flag h =
     \<lparr>FORWARD_AUDIO_BEFORE_TRANSLATION = flag,
      streamSocket = (\<lambda>_. None),
      openAISocket = (\<lambda>_. Some CONNECTING),
      openAIPingInterval = (\<lambda>_. True),
      agentFirstAudioTime = None,
      messages = (\<lambda>_. None),
      translationActive = (\<lambda>_. False),
      activeResponseId = (\<lambda>_. None),
      lastSpeechTimestamp = (\<lambda>_. None),
      translationStartTime = (\<lambda>_. None),
      speechStartTimestamp = (\<lambda>_. None),
      outputState = (\<lambda>_. initialOutputState),
      heap = h\<rparr>"

text \<open>The test \<^verbatim>\<open>!x\<close> on an optional number: undefined and 0 are both falsy.\<close>

definition truthy :: "int option \<Rightarrow> bool" where
  "truthy v = (case v of None \<Rightarrow> False | Some n \<Rightarrow> n \<noteq> 0)"

definition truthy_str :: "string option \<Rightarrow> bool" where
  "truthy_str v = (case v of None \<Rightarrow> False | Some s \<Rightarrow> s \<noteq> [])"

subsection \<open>Sending\<close>

definition sendMessageToOpenAI :: "leg \<Rightarrow> ReadyState \<Rightarrow> ClientEvent \<Rightarrow> effect list" where
  "sendMessageToOpenAI l rs message =
     (if rs = OPEN then [OpenAISend l message] else [Log WebSocketNotOpen])"

definition forwardAudioToOpenAIForTranslation :: "leg \<Rightarrow> ReadyState \<Rightarrow> string \<Rightarrow> effect list" where
  "forwardAudioToOpenAIForTranslation l rs audio =
     sendMessageToOpenAI l rs (InputAudioBufferAppend audio)"

definition alignAudioFrames :: "string \<Rightarrow> string" where
  "alignAudioFrames audioData =
     (let buffer = b64decode audioData;
          frameSize = 8;
          alignedSize = (length buffer div frameSize) * frameSize
      in if alignedSize = 0 then audioData
         else b64encode (take alignedSize buffer))"

text \<open>
  \<^verbatim>\<open>StreamSocket.send(messages)\<close> without the end-of-segment mark: the payloads are
  decoded, concatenated and encoded once into a single media frame.
\<close>

definition ss_send :: "sock_ref \<Rightarrow> StreamSocket \<Rightarrow> string list \<Rightarrow> effect list" where
  "ss_send r ss msgs = [StreamSend r (streamSid ss) (b64encode (concat (map b64decode msgs)))]"

text \<open>
  \<^verbatim>\<open>socket.clear()\<close> on a transport. The class \<open>StreamSocket\<close> defines no method
  \<open>clear\<close>, so the call on a transport that is there throws a \<open>TypeError\<close>, whatever
  the state of the transport.
\<close>

definition ss_clear :: "sock_ref \<Rightarrow> StreamSocket \<Rightarrow> js_error + effect list" where
  "ss_clear r ss = Inl TypeError"

text \<open>
  \<open>sendAlignedAudio\<close>. Neither \<open>alignAudioFrames\<close> nor a send on an open socket throws, so
  the fallback branch of the source is never entered and is not modelled.
\<close>

definition sendAlignedAudio :: "sock_ref option \<Rightarrow> string \<Rightarrow> AudioInterceptor \<Rightarrow> effect list" where
  "sendAlignedAudio sock audioPayload w =
     (case sock of
        None \<Rightarrow> [Log SocketNotAvailable]
      | Some r \<Rightarrow>
          (case socket (heap w r) of
             None \<Rightarrow> [Log SocketNotAvailable]
           | Some rs \<Rightarrow>
               if rs \<noteq> OPEN then [Log SocketNotAvailable]
               else ss_send r (heap w r) [alignAudioFrames audioPayload]))"

subsection \<open>Output pacing\<close>

text \<open>
  \<open>segment_elapsed\<close> is the test that a previous segment exists and has played out by
  \<open>now\<close>; \<open>durationMs\<close> is the playing time of a chunk at 8000 bytes per second.
\<close>

definition segment_elapsed :: "OutputState \<Rightarrow> int \<Rightarrow> bool" where
  "segment_elapsed st now =
     (case lastStart st of
        None \<Rightarrow> False
      | Some ls \<Rightarrow>
          (case lastDurationMs st of
             None \<Rightarrow> False
           | Some ld \<Rightarrow> real_of_int ls + ld \<le> real_of_int now))"

definition durationMs :: "string \<Rightarrow> real" where
  "durationMs audioPayload = real (length (b64decode audioPayload)) / 8000 * 1000"

text \<open>
  \<open>sendTranslationOutput\<close>. The call \<^verbatim>\<open>socket?.clear()\<close> is skipped for an absent
  transport and throws for one that is there; it comes before any assignment to the
  pacing state, so an exception leaves the state as it was and nothing is sent.
\<close>

definition sendTranslationOutput ::
  "sock_ref option \<Rightarrow> string \<Rightarrow> int \<Rightarrow> OutputState \<Rightarrow> AudioInterceptor
    \<Rightarrow> js_error + effect list \<times> OutputState" where
  "sendTranslationOutput sock audioPayload now st w =
     (case (if currentStart st = None \<and> segment_elapsed st now
            then (case sock of None \<Rightarrow> Inr [] | Some r \<Rightarrow> ss_clear r (heap w r))
            else Inr [])
      of
        Inl e \<Rightarrow> Inl e
      | Inr cleared \<Rightarrow>
          (let st1 = (if currentStart st = None
                      then st\<lparr>currentStart := Some now, currentDurationMs := 0\<rparr>
                      else st);
               st2 = st1\<lparr>currentDurationMs := currentDurationMs st1 + durationMs audioPayload\<rparr>
           in Inr (cleared @ sendAlignedAudio sock audioPayload w, st2)))"

definition finalizeTranslationOutput :: "OutputState \<Rightarrow> OutputState" where
  "finalizeTranslationOutput st =
     (let st1 = (if currentStart st \<noteq> None
                 then st\<lparr>lastStart := currentStart st,
                         lastDurationMs := Some (currentDurationMs st)\<rparr>
                 else st)
      in st1\<lparr>currentStart := None, currentDurationMs := 0\<rparr>)"

subsection \<open>Delay tracking\<close>

definition trackTranslationTiming :: "leg \<Rightarrow> int \<Rightarrow> AudioInterceptor \<Rightarrow> effect list" where
  "trackTranslationTiming side currentTime w =
     (case (speechStartTimestamp w side, translationStartTime w side) of
        (Some speechStart, Some translationStart) \<Rightarrow>
          if speechStart = 0 \<or> translationStart = 0
          then [Log (MissingTimingData side (Some speechStart) (Some translationStart))]
          else
            (let translationDelay = currentTime - translationStart;
                 totalDelay = currentTime - speechStart
             in Log (TranslationTiming side speechStart translationStart currentTime
                       translationDelay totalDelay)
                # (if translationDelay > 5000
                   then Log (ExcessiveDelay side translationDelay)
                        # (case openAISocket w side of
                             None \<Rightarrow> []
                           | Some rs \<Rightarrow>
                               sendMessageToOpenAI side rs InputAudioBufferClear
                                 @ [Log (ClearedInputBuffer side)])
                   else []))
      | (a, b) \<Rightarrow> [Log (MissingTimingData side a b)])"

subsection \<open>Latency report\<close>

definition reportOnSocketTimeToFirstAudioBufferAdd :: "BufferedMessage list option \<Rightarrow> real" where
  "reportOnSocketTimeToFirstAudioBufferAdd arg =
     (let msgs = (case arg of None \<Rightarrow> [] | Some ms \<Rightarrow> ms) in
      if length msgs = 0 then 0
      else
        (let filtered = filter (\<lambda>m. first_audio_buffer_add_time m \<noteq> None) msgs in
         if length filtered = 0 then 0
         else
           (let totalTime =
                  foldl (\<lambda>acc m.
                           case first_audio_buffer_add_time m of
                             Some f \<Rightarrow> acc + real_of_int (f - vad_speech_stopped_time m)
                           | None \<Rightarrow> acc)
                        0 filtered
            in totalTime / real (length filtered))))"


text \<open>
  The latencies a report is about, in the words of the specification: one value
  \<open>firstTranslatedChunkAt - speechStoppedAt\<close> for each sample that has a chunk time.
\<close>

definition latencies :: "BufferedMessage list \<Rightarrow> real list" where
  "latencies ms =
     List.map_filter
       (\<lambda>m. map_option (\<lambda>f. real_of_int (f - vad_speech_stopped_time m))
              (first_audio_buffer_add_time m)) ms"

definition mean :: "real list \<Rightarrow> real" where
  "mean xs = sum_list xs / real (length xs)"

subsection \<open>Messages from the backend\<close>

text \<open>
  The handler of \<open>message\<close> events on the backend connection of leg \<open>l\<close>.
  \<open>currentTime\<close> is the clock read at the top of the handler, \<open>now\<close> the one read inside
  \<open>sendTranslationOutput\<close>. A message has one type, so the sequence of tests of the source
  is a case distinction. An exception inside the handler is caught and logged.
\<close>

text \<open>
  The update at the top of the audio-delta branch: the latest sample gets its chunk time
  unless it has one.
\<close>

definition record_first_chunk :: "int \<Rightarrow> BufferedMessage list option \<Rightarrow> BufferedMessage list option" where
  "record_first_chunk currentTime arg =
     (case arg of
        None \<Rightarrow> None
      | Some ms \<Rightarrow>
          if length ms > 0 \<and> \<not> truthy (first_audio_buffer_add_time (ms ! (length ms - 1)))
          then Some (ms[length ms - 1 :=
                          (ms ! (length ms - 1))\<lparr>first_audio_buffer_add_time := Some currentTime\<rparr>])
          else Some ms)"

fun onOpenAIMessage ::
  "leg \<Rightarrow> int \<Rightarrow> int \<Rightarrow> OpenAIMessage \<Rightarrow> AudioInterceptor \<Rightarrow> effect list \<times> AudioInterceptor" where
  "onOpenAIMessage l currentTime now (ResponseCreated rid) w =
     ([], w\<lparr>translationActive := (translationActive w)(l := True),
            activeResponseId := (activeResponseId w)(l := rid),
            translationStartTime := (translationStartTime w)(l := Some currentTime)\<rparr>)"
| "onOpenAIMessage l currentTime now ResponseDone w =
     ([], w\<lparr>translationActive := (translationActive w)(l := False),
            activeResponseId := (activeResponseId w)(l := None),
            translationStartTime := (translationStartTime w)(l := None),
            outputState := (outputState w)(other l := finalizeTranslationOutput (outputState w (other l))),
            speechStartTimestamp := (speechStartTimestamp w)(l := None),
            lastSpeechTimestamp := (lastSpeechTimestamp w)(l := None)\<rparr>)"
| "onOpenAIMessage l currentTime now ResponseAudioDone w =
     ([], w\<lparr>translationActive := (translationActive w)(l := False),
            activeResponseId := (activeResponseId w)(l := None),
            translationStartTime := (translationStartTime w)(l := None),
            outputState := (outputState w)(other l := finalizeTranslationOutput (outputState w (other l))),
            speechStartTimestamp := (speechStartTimestamp w)(l := None),
            lastSpeechTimestamp := (lastSpeechTimestamp w)(l := None)\<rparr>)"
| "onOpenAIMessage l currentTime now SpeechStarted w =
     ((if translationActive w (other l) \<and> truthy_str (activeResponseId w (other l))
       then (case activeResponseId w (other l) of
               Some rid \<Rightarrow>
                 [Log (InterruptionDetected l rid
                         (currentTime -
                            (if truthy (translationStartTime w (other l))
                             then (case translationStartTime w (other l) of
                                     Some ts \<Rightarrow> ts | None \<Rightarrow> currentTime)
                             else currentTime)))]
             | None \<Rightarrow> [])
       else []), w)"
| "onOpenAIMessage l currentTime now (SpeechStopped event_id) w =
     (let ms = (case messages w l of None \<Rightarrow> [] | Some ms \<Rightarrow> ms);
          w1 = w\<lparr>messages := (messages w)(l := Some (ms @
                   [\<lparr>message_id = event_id, first_audio_buffer_add_time = None,
                     vad_speech_stopped_time = currentTime\<rparr>]))\<rparr>
      in (case openAISocket w1 l of
            None \<Rightarrow> ([Log (ErrorProcessingMessage l)], w1)
          | Some rs \<Rightarrow> (sendMessageToOpenAI l rs InputAudioBufferClear, w1)))"
| "onOpenAIMessage l currentTime now (AudioDelta delta) w =
     (let w1 = w\<lparr>messages := (messages w)(l := record_first_chunk currentTime (messages w l))\<rparr>;
          fx1 = trackTranslationTiming l currentTime w1
      in (case sendTranslationOutput (streamSocket w1 (other l)) delta now
                 (outputState w1 (other l)) w1
          of
            Inl e \<Rightarrow> (fx1 @ [Log (ErrorProcessingMessage l)], w1)
          | Inr r \<Rightarrow> (fx1 @ fst r, w1\<lparr>outputState := (outputState w1)(other l := snd r)\<rparr>)))"
| "onOpenAIMessage l currentTime now OtherMessage w = ([], w)"
| "onOpenAIMessage l currentTime now Malformed w = ([Log (ErrorProcessingMessage l)], w)"

subsection \<open>Media from the transports\<close>

definition translateAndForwardCallerAudio ::
  "int \<Rightarrow> string \<Rightarrow> AudioInterceptor \<Rightarrow> effect list \<times> AudioInterceptor" where
  "translateAndForwardCallerAudio currentSystemTime payload w =
     (let w1 = (if \<not> truthy (speechStartTimestamp w Caller)
                then w\<lparr>speechStartTimestamp := (speechStartTimestamp w)(Caller := Some currentSystemTime)\<rparr>
                else w);
          w2 = w1\<lparr>lastSpeechTimestamp := (lastSpeechTimestamp w1)(Caller := Some currentSystemTime)\<rparr>;
          fx1 = (if FORWARD_AUDIO_BEFORE_TRANSLATION w2 = ''true'' \<and> \<not> translationActive w2 Caller
                 then sendAlignedAudio (streamSocket w2 Agent) payload w2
                 else []);
          fx2 = (case openAISocket w2 Caller of
                   None \<Rightarrow> [Log (OpenAINotAvailable Caller)]
                 | Some rs \<Rightarrow> forwardAudioToOpenAIForTranslation Caller rs payload)
      in (fx1 @ fx2, w2))"

text \<open>
  The agent side reads the clock twice (\<open>currentSystemTime\<close>, then \<open>now\<close>) and holds
  back the audio sent for translation during the first second after the first chunk.
\<close>

definition translateAndForwardAgentAudio ::
  "int \<Rightarrow> int \<Rightarrow> string \<Rightarrow> AudioInterceptor \<Rightarrow> effect list \<times> AudioInterceptor" where
  "translateAndForwardAgentAudio currentSystemTime now payload w =
     (let w1 = (if \<not> truthy (speechStartTimestamp w Agent)
                then w\<lparr>speechStartTimestamp := (speechStartTimestamp w)(Agent := Some currentSystemTime)\<rparr>
                else w);
          w2 = w1\<lparr>lastSpeechTimestamp := (lastSpeechTimestamp w1)(Agent := Some currentSystemTime)\<rparr>;
          fx1 = (if FORWARD_AUDIO_BEFORE_TRANSLATION w2 = ''true'' \<and> \<not> translationActive w2 Agent
                 then sendAlignedAudio (streamSocket w2 Caller) payload w2
                 else [])
      in (case agentFirstAudioTime w2 of
            None \<Rightarrow> (fx1, w2\<lparr>agentFirstAudioTime := Some now\<rparr>)
          | Some first \<Rightarrow>
              if first = 0 then (fx1, w2\<lparr>agentFirstAudioTime := Some now\<rparr>)
              else if now - first \<ge> 1000
              then (fx1 @ (case openAISocket w2 Agent of
                             None \<Rightarrow> [Log (OpenAINotAvailable Agent)]
                           | Some rs \<Rightarrow> forwardAudioToOpenAIForTranslation Agent rs payload),
                    w2)
              else (fx1, w2)))"

subsection \<open>Teardown\<close>

text \<open>
  The first four statements of \<open>close\<close>: a transport that is attached is closed and
  detached; a backend connection that exists has its timer stopped and is closed.
\<close>

definition close_stream :: "leg \<Rightarrow> AudioInterceptor \<Rightarrow> AudioInterceptor" where
  "close_stream l w =
     (case streamSocket w l of
        None \<Rightarrow> w
      | Some r \<Rightarrow> w\<lparr>heap := (heap w)(r := ss_close (heap w r)),
                   streamSocket := (streamSocket w)(l := None)\<rparr>)"

definition close_openai :: "leg \<Rightarrow> AudioInterceptor \<Rightarrow> AudioInterceptor" where
  "close_openai l w =
     (case openAISocket w l of
        None \<Rightarrow> w
      | Some rs \<Rightarrow> w\<lparr>openAIPingInterval := (openAIPingInterval w)(l := False),
                    openAISocket := (openAISocket w)(l := Some (ws_close rs))\<rparr>)"

definition close :: "AudioInterceptor \<Rightarrow> effect list \<times> AudioInterceptor" where
  "close w =
     (let w1 = close_openai Agent (close_openai Caller (close_stream Agent (close_stream Caller w)));
          w2 = w1\<lparr>translationActive := (\<lambda>_. False),
                  activeResponseId := (\<lambda>_. None),
                  outputState := (\<lambda>_. initialOutputState),
                  lastSpeechTimestamp := (\<lambda>_. None),
                  translationStartTime := (\<lambda>_. None),
                  speechStartTimestamp := (\<lambda>_. None)\<rparr>
      in ([Log (AverageTimeToFirstAudioBufferAdd Caller
                  (reportOnSocketTimeToFirstAudioBufferAdd (messages w2 Caller))),
           Log (AverageTimeToFirstAudioBufferAdd Agent
                  (reportOnSocketTimeToFirstAudioBufferAdd (messages w2 Agent)))],
          w2))"

subsection \<open>Runs\<close>

text \<open>
  The setters \<open>callerSocket\<close> and \<open>agentSocket\<close> of the class.
\<close>

definition set_streamSocket :: "leg \<Rightarrow> sock_ref \<Rightarrow> AudioInterceptor \<Rightarrow> AudioInterceptor" where
  "set_streamSocket l r w = w\<lparr>streamSocket := (streamSocket w)(l := Some r)\<rparr>"

text \<open>
  The handlers the constructor installs for the state of a backend connection: on
  \<open>open\<close> the session configuration is sent, on \<open>close\<close> the keep-alive timer is
  stopped.
\<close>

definition onOpenAIState :: "leg \<Rightarrow> ReadyState \<Rightarrow> AudioInterceptor \<Rightarrow> effect list \<times> AudioInterceptor" where
  "onOpenAIState l rs w =
     (if rs = OPEN
      then (sendMessageToOpenAI l OPEN SessionUpdate,
            w\<lparr>openAISocket := (openAISocket w)(l := Some OPEN)\<rparr>)
      else if rs = CLOSED
      then ([], w\<lparr>openAISocket := (openAISocket w)(l := Some CLOSED),
                   openAIPingInterval := (openAIPingInterval w)(l := False)\<rparr>)
      else ([], w\<lparr>openAISocket := (openAISocket w)(l := Some rs)\<rparr>))"

text \<open>
  A transport's socket changes state; its \<open>close\<close> handler stops the transport's timer.
\<close>

definition onStreamState :: "sock_ref \<Rightarrow> ReadyState \<Rightarrow> AudioInterceptor \<Rightarrow> AudioInterceptor" where
  "onStreamState r rs w =
     w\<lparr>heap := (heap w)(r := (heap w r)
           \<lparr>socket := Some rs,
            pingInterval := (if rs = CLOSED then False else pingInterval (heap w r))\<rparr>)\<rparr>"

text \<open>
  Each handler runs to completion before the next event is dispatched, so a session is a
  sequence of events: a backend message on a leg (with the two clock readings of its
  handler), a media chunk from the caller's or the agent's transport, a transport being
  attached, a connection or a transport socket changing state, or the teardown.
\<close>

datatype event =
    Backend leg int int OpenAIMessage
  | CallerMedia int string
  | AgentMedia int int string
  | Attach leg sock_ref
  | Connection leg ReadyState
  | Transport sock_ref ReadyState
  | CloseSession

fun step :: "event \<Rightarrow> AudioInterceptor \<Rightarrow> effect list \<times> AudioInterceptor" where
  "step (Backend l currentTime now m) w = onOpenAIMessage l currentTime now m w"
| "step (CallerMedia t payload) w = translateAndForwardCallerAudio t payload w"
| "step (AgentMedia t now payload) w = translateAndForwardAgentAudio t now payload w"
| "step (Attach l r) w = ([], set_streamSocket l r w)"
| "step (Connection l rs) w = onOpenAIState l rs w"
| "step (Transport r rs) w = ([], onStreamState r rs w)"
| "step CloseSession w = close w"

fun run :: "event list \<Rightarrow> AudioInterceptor \<Rightarrow> effect list \<times> AudioInterceptor" where
  "run [] w = ([], w)"
| "run (e # es) w =
     (let r1 = step e w; r2 = run es (snd r1) in (fst r1 @ fst r2, snd r2))"

text \<open>
  The events that start a translation on leg \<open>l\<close>, the finish messages of that leg, and
  the events that end a translation: a finish message or the teardown.
\<close>

fun starts :: "leg \<Rightarrow> event \<Rightarrow> bool" where
  "starts l (Backend l' t n (ResponseCreated rid)) = (l' = l)"
| "starts l _ = False"

fun finishes :: "leg \<Rightarrow> event \<Rightarrow> bool" where
  "finishes l (Backend l' t n ResponseDone) = (l' = l)"
| "finishes l (Backend l' t n ResponseAudioDone) = (l' = l)"
| "finishes l _ = False"

fun ends :: "leg \<Rightarrow> event \<Rightarrow> bool" where
  "ends l CloseSession = True"
| "ends l e = finishes l e"

subsection \<open>Observations on effects\<close>

text \<open>The media frames among a list of effects, as pairs of transport and payload.\<close>

fun stream_sends :: "effect list \<Rightarrow> (sock_ref \<times> string) list" where
  "stream_sends [] = []"
| "stream_sends (StreamSend r sid p # fx) = (r, p) # stream_sends fx"
| "stream_sends (_ # fx) = stream_sends fx"

text \<open>The messages sent on the backend connection of leg \<open>l\<close>.\<close>

fun openai_sends :: "leg \<Rightarrow> effect list \<Rightarrow> ClientEvent list" where
  "openai_sends l [] = []"
| "openai_sends l (OpenAISend l' m # fx) =
     (if l' = l then m # openai_sends l fx else openai_sends l fx)"
| "openai_sends l (_ # fx) = openai_sends l fx"

text \<open>A transport reference that is attached and whose socket is open.\<close>

definition transport_open :: "sock_ref option \<Rightarrow> AudioInterceptor \<Rightarrow> bool" where
  "transport_open sock w =
     (case sock of None \<Rightarrow> False | Some r \<Rightarrow> socket (heap w r) = Some OPEN)"

subsection \<open>A session to evaluate on\<close>

definition demo_stream :: "string \<Rightarrow> StreamSocket" where
  "demo_stream sid =
     \<lparr>socket = Some OPEN, pingInterval = True, streamSid = Some sid,
      ss_from = Some ''+15550100'', onStartCallback = [0], onConnectedCallback = [],
      onMediaCallback = [1], onStopCallback = [2]\<rparr>"

text \<open>
  A relay with pass-through enabled, the caller's transport 0 and the agent's transport 1
  attached, and both backend connections open.
\<close>

definition demo_session :: AudioInterceptor where
  "demo_session =
     snd (run [Attach Caller 0, Attach Agent 1, Connection Caller OPEN, Connection Agent OPEN]
            (new_AudioInterceptor ''true''
               (\<lambda>r. if r = 0 then demo_stream ''MZ-caller'' else demo_stream ''MZ-agent'')))"


text \<open>
  The same session after the caller has spoken (first chunk at 1000) and the backend has
  started the response (at 2000), and the session torn down first, with the caller's media
  listener and backend connection still delivering (the caller's transport received no
  stop frame, the closing handshake is not over).
\<close>

definition demo_cycle :: AudioInterceptor where
  "demo_cycle =
     snd (run [CallerMedia 1000 ''TWFuTWFuTWFu'',
               Backend Caller 2000 2000 (ResponseCreated (Some ''resp_1''))] demo_session)"

definition demo_closing :: AudioInterceptor where
  "demo_closing =
     snd (run [CloseSession, CallerMedia 1000 ''TWFuTWFuTWFu'',
               Backend Caller 2000 2000 (ResponseCreated (Some ''resp_1''))] demo_session)"

text \<open>
  The session in the middle of a translation: speech stopped at 1000, response started at
  1050, first translated chunk at 1300.
\<close>

definition demo_translating :: AudioInterceptor where
  "demo_translating =
     snd (run [Backend Caller 1000 1000 (SpeechStopped ''evt_1''),
               Backend Caller 1050 1050 (ResponseCreated (Some ''resp_1'')),
               Backend Caller 1300 1300 (AudioDelta ''TWFuTWFuTWFu'')] demo_session)"

text \<open>A transport that no longer sends: its socket closing or closed, its timer stopped.\<close>

definition stream_closed :: "StreamSocket \<Rightarrow> bool" where
  "stream_closed ss \<longleftrightarrow>
     socket ss \<noteq> Some OPEN \<and> socket ss \<noteq> Some CONNECTING \<and> \<not> pingInterval ss"

text \<open>
  A transport as the route sets it up on connection (start listener 0, stop listener 2,
  no media listener yet), and the start frame of the outbound stream to the agent.
\<close>

definition fresh_stream :: StreamSocket where
  "fresh_stream =
     \<lparr>socket = Some OPEN, pingInterval = True, streamSid = None, ss_from = None,
      onStartCallback = [0], onConnectedCallback = [], onMediaCallback = [],
      onStopCallback = [2]\<rparr>"

definition outbound_start :: frame where
  "outbound_start =
     Parsed (StartMsg ''MZ-agent''
       [''from'' \<mapsto> ''+15550100'', ''direction'' \<mapsto> ''outbound''])"

text \<open>
  The session after a first response has played out and the agent's socket has closed: a
  chunk of nine bytes at 1300, both finish messages, the agent's socket closing, and a
  second response started at 5000.
\<close>

definition demo_second_segment :: AudioInterceptor where
  "demo_second_segment =
     snd (run [Backend Caller 1300 1300 (AudioDelta ''TWFuTWFuTWFu''),
               Backend Caller 1400 1400 ResponseAudioDone,
               Backend Caller 1410 1410 ResponseDone,
               Transport 1 CLOSED,
               Backend Caller 5000 5000 (ResponseCreated (Some ''resp_2''))] demo_session)"

text \<open>
  The session of the stale finish message: first chunk at 900, speech stopped at 1000, a
  finish message at 1010, the next chunk at 1020, response started at 1050.
\<close>

definition demo_stale_finish :: AudioInterceptor where
  "demo_stale_finish =
     snd (run [CallerMedia 900 ''TWFuTWFuTWFu'',
               Backend Caller 1000 1000 (SpeechStopped ''evt_1''),
               Backend Caller 1010 1010 ResponseDone,
               CallerMedia 1020 ''TWFuTWFuTWFu'',
               Backend Caller 1050 1050 (ResponseCreated (Some ''resp_1''))] demo_session)"

text \<open>
  The condition under which \<open>sendTranslationOutput\<close> calls \<open>clear\<close> on a transport:
  a new segment starts, the previous one has played out, and the transport is there.
\<close>

definition clear_due :: "sock_ref option \<Rightarrow> OutputState \<Rightarrow> int \<Rightarrow> bool" where
  "clear_due sock st now \<longleftrightarrow> currentStart st = None \<and> segment_elapsed st now \<and> sock \<noteq> None"

text \<open>
  The pacing state between segments: no segment in progress means no duration counted.
\<close>

definition pacing_fresh :: "OutputState \<Rightarrow> bool" where
  "pacing_fresh st \<longleftrightarrow> (currentStart st = None \<longrightarrow> currentDurationMs st = 0)"


section \<open>Frame alignment\<close>

text \<open>
  The simplifier's conversion of \<open>set\<close> of a conditional list into a set comprehension
  is switched off: the effect lists below are conditionals over case distinctions.
\<close>

declare TrueI [simproc del: list_to_set_comprehension]

lemma unbase64_b64char: "n < 64 \<Longrightarrow> unbase64 (b64char n) = Some n"
  by (auto simp: unbase64_def b64char_def Let_def)

lemma sextets_b64char: "n < 64 \<Longrightarrow> sextets (b64char n # cs) = n # sextets cs"
  by (simp add: unbase64_b64char)

lemma sextets_pad: "sextets (CHR ''='' # cs) = []"
  by (simp add: unbase64_def)

lemma byte_lt: "unat (x :: byte) < 256"
  using unsigned_less [of x] by simp

lemma sextets_b64encode: "sextets (b64encode bs) = enc_sextets bs"
proof (induction bs rule: b64encode.induct)
  case (1 x y z rest)
  have "unat x div 4 < 64" "(unat x mod 4) * 16 + unat y div 16 < 64"
    "(unat y mod 16) * 4 + unat z div 64 < 64" "unat z mod 64 < 64"
    using byte_lt [of x] byte_lt [of y] byte_lt [of z] by arith+
  with 1 show ?case
    by (simp add: sextets_b64char del: sextets.simps)
next
  case (2 x y)
  have "unat x div 4 < 64" "(unat x mod 4) * 16 + unat y div 16 < 64"
    "(unat y mod 16) * 4 < 64"
    using byte_lt [of x] byte_lt [of y] by arith+
  then show ?case
    by (simp add: sextets_b64char sextets_pad del: sextets.simps)
next
  case (3 x)
  have "unat x div 4 < 64" "(unat x mod 4) * 16 < 64"
    using byte_lt [of x] by arith+
  then show ?case
    by (simp add: sextets_b64char sextets_pad del: sextets.simps)
next
  case 4
  show ?case by simp
qed

lemma div_grp: "q < n \<Longrightarrow> (m * n + q) div n = (m::nat)"
  by simp

lemma mod_grp: "q < n \<Longrightarrow> (m * n + q) mod n = (q::nat)"
  by simp

lemma regroup_first:
  assumes "b < 256"
  shows "((a::nat) div 4) * 4 + ((a mod 4) * 16 + (b::nat) div 16) div 16 = a"
proof -
  have "b div 16 < 16" using assms by arith
  then have "((a mod 4) * 16 + b div 16) div 16 = a mod 4" by (rule div_grp)
  then show ?thesis by simp
qed

lemma regroup_second:
  assumes "y < 256" "z < 256"
  shows "((((x::nat) mod 4) * 16 + (y::nat) div 16) mod 16) * 16
     + ((y mod 16) * 4 + (z::nat) div 64) div 4 = y"
proof -
  have "y div 16 < 16" "z div 64 < 4" using assms by arith+
  then have "((x mod 4) * 16 + y div 16) mod 16 = y div 16"
    "((y mod 16) * 4 + z div 64) div 4 = y mod 16"
    by (simp_all only: div_grp mod_grp)
  then show ?thesis by simp
qed

lemma regroup_third:
  assumes "z < 256"
  shows "((((y::nat) mod 16) * 4 + (z::nat) div 64) mod 4) * 64 + z mod 64 = z"
proof -
  have "z div 64 < 4" using assms by arith
  then have "((y mod 16) * 4 + z div 64) mod 4 = z div 64" by (rule mod_grp)
  then show ?thesis by simp
qed

lemma decode_groups_enc_sextets: "decode_groups (enc_sextets bs) = bs"
proof (induction bs rule: enc_sextets.induct)
  case (1 x y z rest)
  have "unat x div 4 * 4 + (unat x mod 4 * 16 + unat y div 16) div 16 = unat x"
    using regroup_first [OF byte_lt [of y]] .
  moreover have "(unat x mod 4 * 16 + unat y div 16) mod 16 * 16
      + (unat y mod 16 * 4 + unat z div 64) div 4 = unat y"
    using regroup_second [OF byte_lt [of y] byte_lt [of z]] .
  moreover have "(unat y mod 16 * 4 + unat z div 64) mod 4 * 64 + unat z mod 64 = unat z"
    using regroup_third [OF byte_lt [of z]] .
  ultimately show ?case using 1 by simp
next
  case (2 x y)
  have "unat x div 4 * 4 + (unat x mod 4 * 16 + unat y div 16) div 16 = unat x"
    using regroup_first [OF byte_lt [of y]] .
  moreover have "(unat x mod 4 * 16 + unat y div 16) mod 16 * 16
      + (unat y mod 16 * 4 + 0 div 64) div 4 = unat y"
    using regroup_second [OF byte_lt [of y], of 0] by simp
  ultimately show ?case by simp
next
  case (3 x)
  have "unat x div 4 * 4 + (unat x mod 4 * 16 + 0 div 16) div 16 = unat x"
    using regroup_first [of 0] by simp
  then show ?case by simp
next
  case 4
  show ?case by simp
qed

lemma b64decode_b64encode: "b64decode (b64encode bs) = bs"
  by (simp add: b64decode_def sextets_b64encode decode_groups_enc_sextets)

text \<open>
  Claim C6. For every payload, with \<open>n\<close> the number of bytes it decodes to: when
  \<open>n \<ge> 8\<close> the aligned payload decodes to the first \<open>floor(n/8) * 8\<close> bytes of the
  input, so its decoded length is the largest multiple of 8 not above \<open>n\<close>; when
  \<open>n < 8\<close> the payload is returned as it is, so the decoded length is \<open>n\<close>.
\<close>

theorem alignAudioFrames_length:
  "(if 8 \<le> length (b64decode p)
    then b64decode (alignAudioFrames p) = take ((length (b64decode p) div 8) * 8) (b64decode p)
       \<and> length (b64decode (alignAudioFrames p)) = (length (b64decode p) div 8) * 8
    else alignAudioFrames p = p \<and> length (b64decode (alignAudioFrames p)) = length (b64decode p))"
  by (auto simp: alignAudioFrames_def Let_def b64decode_b64encode)

theorem alignAudioFrames_length_witness:
  "length (b64decode ''TWFuTWFuTWFu'') = 9
     \<and> length (b64decode (alignAudioFrames ''TWFuTWFuTWFu'')) = 8
     \<and> length (b64decode ''TWFuTQ=='') = 4
     \<and> alignAudioFrames ''TWFuTQ=='' = ''TWFuTQ==''"
proof -
  have a: "length (b64decode ''TWFuTWFuTWFu'') = 9"
    by (simp add: b64decode_def unbase64_def)
  have b: "length (b64decode ''TWFuTQ=='') = 4"
    by (simp add: b64decode_def unbase64_def)
  show ?thesis
    using alignAudioFrames_length [of "''TWFuTWFuTWFu''"]
      alignAudioFrames_length [of "''TWFuTQ==''"] a b
    by simp
qed

section \<open>Latency report\<close>

lemma foldl_latencies:
  "foldl (\<lambda>acc m. case first_audio_buffer_add_time m of
                     Some f \<Rightarrow> acc + real_of_int (f - vad_speech_stopped_time m)
                   | None \<Rightarrow> acc) a
         (filter (\<lambda>m. first_audio_buffer_add_time m \<noteq> None) ms)
   = a + sum_list (latencies ms)"
  by (induction ms arbitrary: a) (auto simp: latencies_def List.map_filter_simps)

lemma length_latencies:
  "length (filter (\<lambda>m. first_audio_buffer_add_time m \<noteq> None) ms) = length (latencies ms)"
  by (induction ms) (auto simp: latencies_def List.map_filter_simps)

lemma latencies_Nil: "latencies [] = []"
  by (simp add: latencies_def List.map_filter_simps)

text \<open>
  Claim C7. For every list of latency samples the report of \<open>close\<close> is the arithmetic
  mean of \<open>firstTranslatedChunkAt - speechStoppedAt\<close> over the samples that have a chunk
  time; it is 0 when the list is empty, when no sample has a chunk time, and when the
  leg never recorded a sample.
\<close>

theorem report_is_mean:
  "reportOnSocketTimeToFirstAudioBufferAdd (Some ms) =
     (if latencies ms = [] then 0 else mean (latencies ms))
   \<and> reportOnSocketTimeToFirstAudioBufferAdd None = 0"
  unfolding reportOnSocketTimeToFirstAudioBufferAdd_def Let_def option.case
    foldl_latencies length_latencies mean_def
  by (cases ms) (simp_all add: latencies_Nil)

text \<open>The example of the specification: one sample of 300 ms and one without a chunk time.\<close>

theorem report_is_mean_witness:
  "reportOnSocketTimeToFirstAudioBufferAdd
     (Some [\<lparr>message_id = ''evt_1'', first_audio_buffer_add_time = Some 1300,
              vad_speech_stopped_time = 1000\<rparr>,
            \<lparr>message_id = ''evt_2'', first_audio_buffer_add_time = None,
              vad_speech_stopped_time = 2000\<rparr>]) = 300
   \<and> reportOnSocketTimeToFirstAudioBufferAdd
     (Some [\<lparr>message_id = ''evt_2'', first_audio_buffer_add_time = None,
              vad_speech_stopped_time = 2000\<rparr>]) = 0
   \<and> reportOnSocketTimeToFirstAudioBufferAdd (Some []) = 0"
  using report_is_mean [of "[\<lparr>message_id = ''evt_1'', first_audio_buffer_add_time = Some 1300,
              vad_speech_stopped_time = 1000\<rparr>,
            \<lparr>message_id = ''evt_2'', first_audio_buffer_add_time = None,
              vad_speech_stopped_time = 2000\<rparr>]"]
    report_is_mean [of "[\<lparr>message_id = ''evt_2'', first_audio_buffer_add_time = None,
              vad_speech_stopped_time = 2000\<rparr>]"]
    report_is_mean [of "[]"]
  by (simp add: latencies_def List.map_filter_simps mean_def)

section \<open>Pacing: finalizing a segment\<close>

lemma other_neq [simp]: "other l \<noteq> l" "l \<noteq> other l"
  by (cases l; simp)+

lemma finishes_cases:
  "finishes l e \<Longrightarrow> (\<exists>t n. e = Backend l t n ResponseDone \<or> e = Backend l t n ResponseAudioDone)"
  by (erule finishes.elims) auto

lemma step_finish_output:
  assumes "finishes l e"
  shows "outputState (snd (step e w)) (other l) = finalizeTranslationOutput (outputState w (other l))
     \<and> outputState (snd (step e w)) l = outputState w l"
proof -
  from finishes_cases [OF assms] obtain t n
    where "e = Backend l t n ResponseDone \<or> e = Backend l t n ResponseAudioDone" by blast
  then show ?thesis by auto
qed


lemma demo_fields:
  "streamSocket demo_session Caller = Some 0"
  "streamSocket demo_session Agent = Some 1"
  "openAISocket demo_session Caller = Some OPEN"
  "openAISocket demo_session Agent = Some OPEN"
  "translationActive demo_session l = False"
  "FORWARD_AUDIO_BEFORE_TRANSLATION demo_session = ''true''"
  "socket (heap demo_session r) = Some OPEN"
  "streamSid (heap demo_session 1) = Some ''MZ-agent''"
  "streamSid (heap demo_session 0) = Some ''MZ-caller''"
  "outputState demo_session l = initialOutputState"
  "speechStartTimestamp demo_session l = None"
  "translationStartTime demo_session l = None"
  "messages demo_session l = None"
  "agentFirstAudioTime demo_session = None"
  by (simp_all add: demo_session_def new_AudioInterceptor_def set_streamSocket_def
      onOpenAIState_def demo_stream_def)

text \<open>
  Claim C5 as stated fails when no segment is in progress, which is the state the second
  finish message of a response finds (the state below is the one reached in the example
  further down): the last-segment fields keep the values 1300 and 9/8 and do not become
  the current values from before, unset and 0.
\<close>

theorem finalize_counterexample:
  "\<not> (lastStart (finalizeTranslationOutput
          \<lparr>currentStart = None, currentDurationMs = 0, lastStart = Some 1300,
           lastDurationMs = Some (9 / 8)\<rparr>)
        = currentStart \<lparr>currentStart = None, currentDurationMs = 0, lastStart = Some 1300,
           lastDurationMs = Some (9 / 8)\<rparr>)
   \<and> lastStart (finalizeTranslationOutput
          \<lparr>currentStart = None, currentDurationMs = 0, lastStart = Some 1300,
           lastDurationMs = Some (9 / 8)\<rparr>) = Some 1300
   \<and> lastDurationMs (finalizeTranslationOutput
          \<lparr>currentStart = None, currentDurationMs = 0, lastStart = Some 1300,
           lastDurationMs = Some (9 / 8)\<rparr>) = Some (9 / 8)"
  by (simp add: finalizeTranslationOutput_def)

text \<open>
  Claim C5, as amended. Finalizing always leaves \<open>currentStart\<close> unset and
  \<open>currentDurationMs\<close> 0. When a segment was in progress, the last-segment fields
  become the current values from before; when none was in progress, they keep their
  values. Finalizing twice is finalizing once. Each finish message of a leg finalizes the
  pacing state of the opposite leg and leaves the leg's own pacing state as it was.
\<close>

theorem finalize_law:
  "currentStart (finalizeTranslationOutput st) = None
   \<and> currentDurationMs (finalizeTranslationOutput st) = 0
   \<and> (if currentStart st \<noteq> None
      then lastStart (finalizeTranslationOutput st) = currentStart st
         \<and> lastDurationMs (finalizeTranslationOutput st) = Some (currentDurationMs st)
      else lastStart (finalizeTranslationOutput st) = lastStart st
         \<and> lastDurationMs (finalizeTranslationOutput st) = lastDurationMs st)
   \<and> finalizeTranslationOutput (finalizeTranslationOutput st) = finalizeTranslationOutput st
   \<and> (finishes l e \<longrightarrow>
        outputState (snd (step e w)) (other l) = finalizeTranslationOutput (outputState w (other l))
        \<and> outputState (snd (step e w)) l = outputState w l)"
proof -
  have a: "finishes l e \<longrightarrow>
        outputState (snd (step e w)) (other l) = finalizeTranslationOutput (outputState w (other l))
        \<and> outputState (snd (step e w)) l = outputState w l"
    using step_finish_output [of l e w] by blast
  have b: "currentStart (finalizeTranslationOutput st) = None
   \<and> currentDurationMs (finalizeTranslationOutput st) = 0
   \<and> (if currentStart st \<noteq> None
      then lastStart (finalizeTranslationOutput st) = currentStart st
         \<and> lastDurationMs (finalizeTranslationOutput st) = Some (currentDurationMs st)
      else lastStart (finalizeTranslationOutput st) = lastStart st
         \<and> lastDurationMs (finalizeTranslationOutput st) = lastDurationMs st)
   \<and> finalizeTranslationOutput (finalizeTranslationOutput st) = finalizeTranslationOutput st"
    by (simp add: finalizeTranslationOutput_def)
  from a b show ?thesis by blast
qed


text \<open>A chunk of nine bytes at 1300, then a finish message.\<close>

theorem finalize_law_witness:
  "finishes Caller (Backend Caller 1400 1400 ResponseDone)
   \<and> outputState (snd (step (Backend Caller 1300 1300 (AudioDelta ''TWFuTWFuTWFu'')) demo_session)) Agent
       = \<lparr>currentStart = Some 1300, currentDurationMs = 9 / 8, lastStart = None,
          lastDurationMs = None\<rparr>
   \<and> outputState (snd (step (Backend Caller 1400 1400 ResponseDone)
        (snd (step (Backend Caller 1300 1300 (AudioDelta ''TWFuTWFuTWFu'')) demo_session)))) Agent
       = \<lparr>currentStart = None, currentDurationMs = 0, lastStart = Some 1300,
          lastDurationMs = Some (9 / 8)\<rparr>"
proof -
  define w1 where "w1 = snd (step (Backend Caller 1300 1300 (AudioDelta ''TWFuTWFuTWFu'')) demo_session)"
  have len: "length (b64decode ''TWFuTWFuTWFu'') = 9"
    by (simp add: b64decode_def unbase64_def)
  have st: "outputState w1 Agent
       = \<lparr>currentStart = Some 1300, currentDurationMs = 9 / 8, lastStart = None,
          lastDurationMs = None\<rparr>"
    unfolding w1_def
    by (simp add: demo_fields sendTranslationOutput_def Let_def initialOutputState_def
        durationMs_def len segment_elapsed_def)
  have fin: "outputState (snd (step (Backend Caller 1400 1400 ResponseDone) w1)) Agent
       = \<lparr>currentStart = None, currentDurationMs = 0, lastStart = Some 1300,
          lastDurationMs = Some (9 / 8)\<rparr>"
    using finalize_law [of "outputState w1 Agent" Caller "Backend Caller 1400 1400 ResponseDone" w1]
    by (simp add: st finalizeTranslationOutput_def del: step.simps)
  show ?thesis
    using st fin unfolding w1_def by (simp del: step.simps)
qed

section \<open>Effects of the send functions\<close>

lemma stream_sends_append: "stream_sends (a @ b) = stream_sends a @ stream_sends b"
  by (induction a rule: stream_sends.induct) simp_all

lemma openai_sends_append: "openai_sends l (a @ b) = openai_sends l a @ openai_sends l b"
  by (induction l a rule: openai_sends.induct) simp_all

lemma stream_sends_sendAlignedAudio:
  "stream_sends (sendAlignedAudio sock p w) =
     (case sock of
        None \<Rightarrow> []
      | Some r \<Rightarrow> if socket (heap w r) = Some OPEN
                  then [(r, b64encode (b64decode (alignAudioFrames p)))] else [])"
  by (auto simp: sendAlignedAudio_def ss_send_def split: option.splits)

lemma openai_sends_sendAlignedAudio: "openai_sends l (sendAlignedAudio sock p w) = []"
  by (auto simp: sendAlignedAudio_def ss_send_def split: option.splits)

lemma stream_sends_sendMessageToOpenAI: "stream_sends (sendMessageToOpenAI l rs m) = []"
  by (simp add: sendMessageToOpenAI_def)

lemma openai_sends_sendMessageToOpenAI:
  "openai_sends l (sendMessageToOpenAI l' rs m) = (if l' = l \<and> rs = OPEN then [m] else [])"
  by (simp add: sendMessageToOpenAI_def)

lemma stream_sends_trackTranslationTiming:
  "stream_sends (trackTranslationTiming side t w) = []"
  by (auto simp: trackTranslationTiming_def Let_def stream_sends_append
      stream_sends_sendMessageToOpenAI split: option.splits)

lemma errors_sendAlignedAudio:
  "Log (ErrorProcessingMessage l) \<notin> set (sendAlignedAudio sock p w)"
  by (simp add: sendAlignedAudio_def ss_send_def split: option.splits)

lemma errors_trackTranslationTiming:
  "Log (ErrorProcessingMessage l) \<notin> set (trackTranslationTiming side t w)"
  by (simp add: trackTranslationTiming_def Let_def sendMessageToOpenAI_def
      split: option.splits)

text \<open>The two outcomes of \<open>sendTranslationOutput\<close> and of the audio-delta branch.\<close>

lemma sendTranslationOutput_throws:
  "clear_due sock st now \<Longrightarrow> sendTranslationOutput sock p now st w = Inl TypeError"
  by (auto simp: clear_due_def sendTranslationOutput_def ss_clear_def)

lemma sendTranslationOutput_returns:
  "\<not> clear_due sock st now \<Longrightarrow>
     sendTranslationOutput sock p now st w =
       Inr (sendAlignedAudio sock p w,
            (if currentStart st = None
             then st\<lparr>currentStart := Some now, currentDurationMs := 0 + durationMs p\<rparr>
             else st\<lparr>currentDurationMs := currentDurationMs st + durationMs p\<rparr>))"
  by (auto simp: clear_due_def sendTranslationOutput_def Let_def split: option.splits)

lemma delta_throws:
  assumes "clear_due (streamSocket w (other l)) (outputState w (other l)) now"
  shows "onOpenAIMessage l t now (AudioDelta p) w =
     (trackTranslationTiming l t
        (w\<lparr>messages := (messages w)(l := record_first_chunk t (messages w l))\<rparr>)
        @ [Log (ErrorProcessingMessage l)],
      w\<lparr>messages := (messages w)(l := record_first_chunk t (messages w l))\<rparr>)"
  using assms by (simp add: Let_def sendTranslationOutput_throws)

lemma delta_returns:
  assumes "\<not> clear_due (streamSocket w (other l)) (outputState w (other l)) now"
  shows "onOpenAIMessage l t now (AudioDelta p) w =
     (trackTranslationTiming l t
        (w\<lparr>messages := (messages w)(l := record_first_chunk t (messages w l))\<rparr>)
        @ sendAlignedAudio (streamSocket w (other l)) p
            (w\<lparr>messages := (messages w)(l := record_first_chunk t (messages w l))\<rparr>),
      w\<lparr>messages := (messages w)(l := record_first_chunk t (messages w l)),
         outputState := (outputState w)(other l :=
           (if currentStart (outputState w (other l)) = None
            then (outputState w (other l))
                   \<lparr>currentStart := Some now, currentDurationMs := 0 + durationMs p\<rparr>
            else (outputState w (other l))
                   \<lparr>currentDurationMs := currentDurationMs (outputState w (other l))
                      + durationMs p\<rparr>))\<rparr>)"
  using assms by (simp add: Let_def sendTranslationOutput_returns)

lemma openai_sends_delta_track:
  "openai_sends l' (fst (onOpenAIMessage l t now (AudioDelta p) w)) =
     openai_sends l' (trackTranslationTiming l t
        (w\<lparr>messages := (messages w)(l := record_first_chunk t (messages w l))\<rparr>))"
proof (cases "clear_due (streamSocket w (other l)) (outputState w (other l)) now")
  case True
  show ?thesis unfolding delta_throws [OF True] by (simp add: openai_sends_append)
next
  case False
  show ?thesis unfolding delta_returns [OF False]
    by (simp add: openai_sends_append openai_sends_sendAlignedAudio)
qed

text \<open>Every state a run reaches from the constructor has fresh pacing states.\<close>

lemma pacing_fresh_finalize: "pacing_fresh (finalizeTranslationOutput st)"
  by (simp add: pacing_fresh_def finalizeTranslationOutput_def)

lemma pacing_fresh_delta:
  assumes "\<forall>l. pacing_fresh (outputState w l)"
  shows "pacing_fresh (outputState (snd (onOpenAIMessage l t n (AudioDelta p) w)) l')"
proof (cases "clear_due (streamSocket w (other l)) (outputState w (other l)) n")
  case True
  show ?thesis unfolding delta_throws [OF True] using assms by simp
next
  case False
  show ?thesis unfolding delta_returns [OF False] using assms
    by (auto simp: pacing_fresh_def)
qed

lemma pacing_fresh_message:
  "\<forall>l. pacing_fresh (outputState w l) \<Longrightarrow>
     pacing_fresh (outputState (snd (onOpenAIMessage l t n m w)) l')"
proof (cases m)
  case (AudioDelta p)
  assume "\<forall>l. pacing_fresh (outputState w l)"
  then show ?thesis unfolding AudioDelta by (rule pacing_fresh_delta)
qed (auto simp: Let_def pacing_fresh_finalize split: option.splits)

lemma pacing_fresh_step:
  "\<forall>l. pacing_fresh (outputState w l) \<Longrightarrow> pacing_fresh (outputState (snd (step e w)) l')"
proof (cases e)
  case (Backend l t n m)
  assume "\<forall>l. pacing_fresh (outputState w l)"
  then show ?thesis using Backend by (simp add: pacing_fresh_message del: onOpenAIMessage.simps)
next
  case (CallerMedia t p)
  assume "\<forall>l. pacing_fresh (outputState w l)"
  then show ?thesis using CallerMedia by (simp add: translateAndForwardCallerAudio_def Let_def)
next
  case (AgentMedia t n p)
  assume "\<forall>l. pacing_fresh (outputState w l)"
  then show ?thesis using AgentMedia
    by (simp add: translateAndForwardAgentAudio_def Let_def split: option.splits)
next
  case (Attach l r)
  assume "\<forall>l. pacing_fresh (outputState w l)"
  then show ?thesis using Attach by (simp add: set_streamSocket_def)
next
  case (Connection l rs)
  assume "\<forall>l. pacing_fresh (outputState w l)"
  then show ?thesis using Connection by (simp add: onOpenAIState_def)
next
  case (Transport r rs)
  assume "\<forall>l. pacing_fresh (outputState w l)"
  then show ?thesis using Transport by (simp add: onStreamState_def)
next
  case CloseSession
  then show ?thesis
    by (simp add: close_def Let_def pacing_fresh_def initialOutputState_def)
qed

lemma pacing_fresh_run:
  "\<forall>l. pacing_fresh (outputState w l) \<Longrightarrow> pacing_fresh (outputState (snd (run es w)) l')"
proof (induction es arbitrary: w l')
  case Nil
  then show ?case by simp
next
  case (Cons e es)
  have "\<forall>l. pacing_fresh (outputState (snd (step e w)) l)"
    using pacing_fresh_step [OF Cons.prems] by blast
  from Cons.IH [OF this] show ?case by (simp add: Let_def del: step.simps)
qed

lemma pacing_fresh_new: "pacing_fresh (outputState (new_AudioInterceptor flag h) l)"
  by (simp add: new_AudioInterceptor_def initialOutputState_def pacing_fresh_def)

section \<open>Translated chunks that cannot be delivered\<close>

text \<open>
  What the source does by design when the opposite transport cannot be sent to and no
  clear is called: no media frame is sent, no exception is caught, and the pacing state
  of the opposite leg is updated, a segment being started at \<open>now\<close> if none was in
  progress and the duration growing by \<open>decodedByteLength / 8000 * 1000\<close>.
\<close>

lemma dropped_chunk_paces:
  assumes "\<not> transport_open (streamSocket w (other l)) w"
    and "\<not> clear_due (streamSocket w (other l)) (outputState w (other l)) now"
  shows "stream_sends (fst (onOpenAIMessage l t now (AudioDelta p) w)) = []
    \<and> Log (ErrorProcessingMessage l) \<notin> set (fst (onOpenAIMessage l t now (AudioDelta p) w))
    \<and> currentStart (outputState (snd (onOpenAIMessage l t now (AudioDelta p) w)) (other l))
        = (if currentStart (outputState w (other l)) = None then Some now
           else currentStart (outputState w (other l)))
    \<and> currentDurationMs (outputState (snd (onOpenAIMessage l t now (AudioDelta p) w)) (other l))
        = (if currentStart (outputState w (other l)) = None then 0
           else currentDurationMs (outputState w (other l)))
          + real (length (b64decode p)) / 8000 * 1000"
proof -
  have a: "stream_sends (sendAlignedAudio (streamSocket w (other l)) p
      (w\<lparr>messages := (messages w)(l := record_first_chunk t (messages w l))\<rparr>)) = []"
    using assms(1)
    by (auto simp: stream_sends_sendAlignedAudio transport_open_def split: option.splits)
  show ?thesis
    unfolding delta_returns [OF assms(2)]
    by (simp add: stream_sends_append stream_sends_trackTranslationTiming a
        errors_trackTranslationTiming errors_sendAlignedAudio durationMs_def)
qed

lemma demo_second_segment_socket: "streamSocket demo_second_segment Agent = Some 1"
  by (simp add: demo_second_segment_def demo_fields Let_def sendTranslationOutput_def
      segment_elapsed_def initialOutputState_def onStreamState_def)

lemma demo_second_segment_closed: "socket (heap demo_second_segment 1) = Some CLOSED"
  by (simp add: demo_second_segment_def demo_fields Let_def sendTranslationOutput_def
      segment_elapsed_def initialOutputState_def onStreamState_def)

lemma demo_second_segment_output:
  "outputState demo_second_segment Agent =
     \<lparr>currentStart = None, currentDurationMs = 0, lastStart = Some 1300,
      lastDurationMs = Some (9 / 8)\<rparr>"
proof -
  have len: "length (b64decode ''TWFuTWFuTWFu'') = 9"
    by (simp add: b64decode_def unbase64_def)
  show ?thesis
    by (simp add: demo_second_segment_def demo_fields Let_def sendTranslationOutput_def
        segment_elapsed_def initialOutputState_def durationMs_def len
        finalizeTranslationOutput_def onStreamState_def)
qed

lemmas demo_second_segment_fields =
  demo_second_segment_socket demo_second_segment_closed demo_second_segment_output

text \<open>
  Claim C10 at the input where the code departs from it. The agent's transport is
  attached and its socket closed, the previous segment (started at 1300, 9/8 ms long) has
  played out, and a translated chunk for the agent arrives at 5300. The call of
  \<open>clear\<close> on the transport throws before the pacing state is touched: the handler
  logs the caught exception, nothing is sent, and the pacing state of the agent's leg is
  what it was, with no segment started and no duration added.
\<close>

theorem undelivered_chunk_throws:
  "streamSocket demo_second_segment Agent = Some 1
   \<and> socket (heap demo_second_segment 1) = Some CLOSED
   \<and> outputState demo_second_segment Agent =
       \<lparr>currentStart = None, currentDurationMs = 0, lastStart = Some 1300,
        lastDurationMs = Some (9 / 8)\<rparr>
   \<and> Log (ErrorProcessingMessage Caller)
       \<in> set (fst (onOpenAIMessage Caller 5300 5300 (AudioDelta ''TWFuTWFuTWFu'')
                  demo_second_segment))
   \<and> stream_sends (fst (onOpenAIMessage Caller 5300 5300 (AudioDelta ''TWFuTWFuTWFu'')
                  demo_second_segment)) = []
   \<and> outputState (snd (onOpenAIMessage Caller 5300 5300 (AudioDelta ''TWFuTWFuTWFu'')
                  demo_second_segment)) Agent =
       \<lparr>currentStart = None, currentDurationMs = 0, lastStart = Some 1300,
        lastDurationMs = Some (9 / 8)\<rparr>"
proof -
  have due: "clear_due (streamSocket demo_second_segment (other Caller))
      (outputState demo_second_segment (other Caller)) 5300"
    by (simp add: clear_due_def demo_second_segment_fields segment_elapsed_def)
  show ?thesis
    using demo_second_segment_fields unfolding delta_throws [OF due]
    by (simp add: stream_sends_append stream_sends_trackTranslationTiming)
qed


section \<open>Delay correction\<close>

lemma openai_sends_trackTranslationTiming:
  assumes "speechStartTimestamp w l = Some s0" "s0 \<noteq> 0"
    and "translationStartTime w l = Some ts" "ts \<noteq> 0"
  shows "openai_sends l' (trackTranslationTiming l t w) =
     (if l' = l \<and> t - ts > 5000 \<and> openAISocket w l = Some OPEN
      then [InputAudioBufferClear] else [])"
  using assms
  by (auto simp: trackTranslationTiming_def Let_def openai_sends_append
      openai_sends_sendMessageToOpenAI split: option.splits)

lemma openai_sends_delta:
  assumes "speechStartTimestamp w l = Some s0" "s0 \<noteq> 0"
    and "translationStartTime w l = Some ts" "ts \<noteq> 0"
  shows "openai_sends l' (fst (onOpenAIMessage l t now (AudioDelta p) w)) =
     (if l' = l \<and> t - ts > 5000 \<and> openAISocket w l = Some OPEN
      then [InputAudioBufferClear] else [])"
proof -
  let ?w1 = "w\<lparr>messages := (messages w)(l := record_first_chunk t (messages w l))\<rparr>"
  have "openai_sends l' (fst (onOpenAIMessage l t now (AudioDelta p) w))
      = openai_sends l' (trackTranslationTiming l t ?w1)"
    by (rule openai_sends_delta_track)
  also have "\<dots> = (if l' = l \<and> t - ts > 5000 \<and> openAISocket ?w1 l = Some OPEN
      then [InputAudioBufferClear] else [])"
    by (rule openai_sends_trackTranslationTiming [of ?w1 l s0 ts]) (simp_all add: assms)
  finally show ?thesis by simp
qed

text \<open>
  Claim C4, as amended. For a translated-audio chunk handled for leg \<open>l\<close> at time
  \<open>now\<close>, with \<open>speechStartedAt\<close> and \<open>translationStartedAt\<close> set (to
  non-zero values, the handler reading them by truthiness): an input-buffer clear is sent
  on the leg's own backend connection if and only if \<open>now - translationStartedAt\<close>
  exceeds 5000 and that connection is open; nothing is sent on the other leg's connection.
\<close>

theorem delay_clear_iff:
  assumes "speechStartTimestamp w l = Some s0" "s0 \<noteq> 0"
    and "translationStartTime w l = Some ts" "ts \<noteq> 0"
  shows "(InputAudioBufferClear \<in> set (openai_sends l (fst (onOpenAIMessage l now n (AudioDelta p) w)))
           \<longleftrightarrow> now - ts > 5000 \<and> openAISocket w l = Some OPEN)
       \<and> openai_sends (other l) (fst (onOpenAIMessage l now n (AudioDelta p) w)) = []"
  unfolding openai_sends_delta [OF assms] by simp


lemma demo_cycle_fields:
  "speechStartTimestamp demo_cycle Caller = Some 1000"
  "translationStartTime demo_cycle Caller = Some 2000"
  "openAISocket demo_cycle Caller = Some OPEN"
  "translationActive demo_cycle Caller = True"
  "FORWARD_AUDIO_BEFORE_TRANSLATION demo_cycle = ''true''"
  "transport_open (streamSocket demo_cycle Agent) demo_cycle"
  by (simp_all add: demo_cycle_def demo_fields translateAndForwardCallerAudio_def truthy_def
      Let_def transport_open_def)

lemma demo_closing_fields:
  "speechStartTimestamp demo_closing Caller = Some 1000"
  "translationStartTime demo_closing Caller = Some 2000"
  "openAISocket demo_closing Caller = Some CLOSING"
  by (simp_all add: demo_closing_def demo_fields translateAndForwardCallerAudio_def truthy_def
      Let_def close_def close_stream_def close_openai_def ws_close_def)

text \<open>The boundary: with the response started at 2000, chunks at 6999, 7000 and 7001.\<close>

theorem delay_clear_iff_witness:
  "speechStartTimestamp demo_cycle Caller = Some 1000
   \<and> translationStartTime demo_cycle Caller = Some 2000
   \<and> InputAudioBufferClear \<notin> set (openai_sends Caller
         (fst (onOpenAIMessage Caller 6999 6999 (AudioDelta ''TWFuTWFuTWFu'') demo_cycle)))
   \<and> InputAudioBufferClear \<notin> set (openai_sends Caller
         (fst (onOpenAIMessage Caller 7000 7000 (AudioDelta ''TWFuTWFuTWFu'') demo_cycle)))
   \<and> InputAudioBufferClear \<in> set (openai_sends Caller
         (fst (onOpenAIMessage Caller 7001 7001 (AudioDelta ''TWFuTWFuTWFu'') demo_cycle)))"
proof -
  have a: "speechStartTimestamp demo_cycle Caller = Some 1000" "(1000::int) \<noteq> 0"
    "translationStartTime demo_cycle Caller = Some 2000" "(2000::int) \<noteq> 0"
    by (simp_all add: demo_cycle_fields)
  show ?thesis
    using delay_clear_iff [OF a, of 6999 6999 "''TWFuTWFuTWFu''"]
      delay_clear_iff [OF a, of 7000 7000 "''TWFuTWFuTWFu''"]
      delay_clear_iff [OF a, of 7001 7001 "''TWFuTWFuTWFu''"]
    by (simp add: demo_cycle_fields del: onOpenAIMessage.simps)
qed

text \<open>
  Claim C4 as stated fails when the connection is not open: after the teardown has started
  closing it, a chunk 5001 ms after the start of the response sends no clear (the send is
  skipped and an error is logged).
\<close>

theorem delay_clear_counterexample:
  "speechStartTimestamp demo_closing Caller = Some 1000
   \<and> translationStartTime demo_closing Caller = Some 2000
   \<and> \<not> (InputAudioBufferClear \<in> set (openai_sends Caller
            (fst (onOpenAIMessage Caller 7001 7001 (AudioDelta ''TWFuTWFuTWFu'') demo_closing)))
          \<longleftrightarrow> 7001 - 2000 > (5000::int))"
proof -
  have a: "speechStartTimestamp demo_closing Caller = Some 1000" "(1000::int) \<noteq> 0"
    "translationStartTime demo_closing Caller = Some 2000" "(2000::int) \<noteq> 0"
    by (simp_all add: demo_closing_fields)
  show ?thesis
    using openai_sends_delta [OF a, of Caller 7001 7001 "''TWFuTWFuTWFu''"]
    by (simp add: demo_closing_fields del: onOpenAIMessage.simps)
qed

section \<open>Pass-through\<close>

lemma stream_sends_caller:
  "stream_sends (fst (translateAndForwardCallerAudio t p w)) =
     (if FORWARD_AUDIO_BEFORE_TRANSLATION w = ''true'' \<and> \<not> translationActive w Caller
      then stream_sends (sendAlignedAudio (streamSocket w Agent) p w) else [])"
  by (auto simp: translateAndForwardCallerAudio_def Let_def stream_sends_append
      forwardAudioToOpenAIForTranslation_def stream_sends_sendMessageToOpenAI
      stream_sends_sendAlignedAudio split: option.splits)

lemma stream_sends_agent:
  "stream_sends (fst (translateAndForwardAgentAudio t n p w)) =
     (if FORWARD_AUDIO_BEFORE_TRANSLATION w = ''true'' \<and> \<not> translationActive w Agent
      then stream_sends (sendAlignedAudio (streamSocket w Caller) p w) else [])"
  by (auto simp: translateAndForwardAgentAudio_def Let_def stream_sends_append
      forwardAudioToOpenAIForTranslation_def stream_sends_sendMessageToOpenAI
      stream_sends_sendAlignedAudio split: option.splits)

lemma stream_sends_aligned_nonempty:
  "stream_sends (sendAlignedAudio sock p w) \<noteq> [] \<longleftrightarrow> transport_open sock w"
  by (simp add: stream_sends_sendAlignedAudio transport_open_def split: option.splits)

lemma stream_sends_aligned_member:
  "(r, q) \<in> set (stream_sends (sendAlignedAudio sock p w)) \<Longrightarrow>
     sock = Some r \<and> b64decode q = b64decode (alignAudioFrames p)"
  by (auto simp: stream_sends_sendAlignedAudio b64decode_b64encode
      split: option.splits if_splits)

text \<open>
  Claim C3, as amended. An inbound chunk on one leg is forwarded to the transport of the
  other leg if and only if the pass-through flag is \<open>'true'\<close>, the leg's translation
  is not active, and the other leg's transport is attached with an open socket. A
  forwarded frame goes to that transport and carries the bytes of the frame-aligned
  payload.
\<close>

theorem pass_through_iff:
  "(stream_sends (fst (translateAndForwardCallerAudio t p w)) \<noteq> []
      \<longleftrightarrow> FORWARD_AUDIO_BEFORE_TRANSLATION w = ''true'' \<and> \<not> translationActive w Caller
          \<and> transport_open (streamSocket w Agent) w)
   \<and> (stream_sends (fst (translateAndForwardAgentAudio t n p w)) \<noteq> []
      \<longleftrightarrow> FORWARD_AUDIO_BEFORE_TRANSLATION w = ''true'' \<and> \<not> translationActive w Agent
          \<and> transport_open (streamSocket w Caller) w)
   \<and> (\<forall>r q. (r, q) \<in> set (stream_sends (fst (translateAndForwardCallerAudio t p w)))
        \<longrightarrow> streamSocket w Agent = Some r \<and> b64decode q = b64decode (alignAudioFrames p))
   \<and> (\<forall>r q. (r, q) \<in> set (stream_sends (fst (translateAndForwardAgentAudio t n p w)))
        \<longrightarrow> streamSocket w Caller = Some r \<and> b64decode q = b64decode (alignAudioFrames p))"
proof -
  have a: "stream_sends (fst (translateAndForwardCallerAudio t p w)) \<noteq> []
      \<longleftrightarrow> FORWARD_AUDIO_BEFORE_TRANSLATION w = ''true'' \<and> \<not> translationActive w Caller
          \<and> transport_open (streamSocket w Agent) w"
    unfolding stream_sends_caller using stream_sends_aligned_nonempty [of "streamSocket w Agent" p w]
    by auto
  have b: "stream_sends (fst (translateAndForwardAgentAudio t n p w)) \<noteq> []
      \<longleftrightarrow> FORWARD_AUDIO_BEFORE_TRANSLATION w = ''true'' \<and> \<not> translationActive w Agent
          \<and> transport_open (streamSocket w Caller) w"
    unfolding stream_sends_agent using stream_sends_aligned_nonempty [of "streamSocket w Caller" p w]
    by auto
  have c: "\<forall>r q. (r, q) \<in> set (stream_sends (fst (translateAndForwardCallerAudio t p w)))
        \<longrightarrow> streamSocket w Agent = Some r \<and> b64decode q = b64decode (alignAudioFrames p)"
    unfolding stream_sends_caller using stream_sends_aligned_member [of _ _ "streamSocket w Agent" p w]
    by (auto split: if_splits)
  have d: "\<forall>r q. (r, q) \<in> set (stream_sends (fst (translateAndForwardAgentAudio t n p w)))
        \<longrightarrow> streamSocket w Caller = Some r \<and> b64decode q = b64decode (alignAudioFrames p)"
    unfolding stream_sends_agent using stream_sends_aligned_member [of _ _ "streamSocket w Caller" p w]
    by (auto split: if_splits)
  from a b c d show ?thesis by blast
qed


lemma aligned_example: "alignAudioFrames ''TWFuTWFuTWFu'' = ''TWFuTWFuTWE=''"
  by code_simp

lemma reencode_example: "b64encode (b64decode ''TWFuTWFuTWE='') = ''TWFuTWFuTWE=''"
  by code_simp

text \<open>
  Idle legs forward the aligned chunk (nine bytes cut to eight); the caller's chunk is not
  forwarded while the caller's translation is active.
\<close>

theorem pass_through_iff_witness:
  "stream_sends (fst (translateAndForwardCallerAudio 900 ''TWFuTWFuTWFu'' demo_session))
      = [(1, ''TWFuTWFuTWE='')]
   \<and> stream_sends (fst (translateAndForwardAgentAudio 900 900 ''TWFuTWFuTWFu'' demo_session))
      = [(0, ''TWFuTWFuTWE='')]
   \<and> translationActive demo_cycle Caller
   \<and> stream_sends (fst (translateAndForwardCallerAudio 2500 ''TWFuTWFuTWFu'' demo_cycle)) = []"
proof -
  have a: "stream_sends (fst (translateAndForwardCallerAudio 900 ''TWFuTWFuTWFu'' demo_session))
      = [(1, ''TWFuTWFuTWE='')]"
    by (simp add: stream_sends_caller stream_sends_sendAlignedAudio demo_fields aligned_example
        reencode_example)
  have b: "stream_sends (fst (translateAndForwardAgentAudio 900 900 ''TWFuTWFuTWFu'' demo_session))
      = [(0, ''TWFuTWFuTWE='')]"
    by (simp add: stream_sends_agent stream_sends_sendAlignedAudio demo_fields aligned_example
        reencode_example)
  have c: "stream_sends (fst (translateAndForwardCallerAudio 2500 ''TWFuTWFuTWFu'' demo_cycle)) = []"
    using pass_through_iff [of 2500 "''TWFuTWFuTWFu''" demo_cycle]
    by (simp add: demo_cycle_fields)
  from a b c show ?thesis by (simp add: demo_cycle_fields)
qed

text \<open>
  Claim C3 as stated fails when the destination cannot be sent to: with the flag enabled
  and no translation active, nothing is forwarded once the agent's socket has closed, nor
  after the teardown has detached the transports.
\<close>

theorem pass_through_counterexample:
  "\<not> (stream_sends (fst (translateAndForwardCallerAudio 900 ''TWFuTWFuTWFu''
           (snd (step (Transport 1 CLOSED) demo_session)))) \<noteq> []
        \<longleftrightarrow> FORWARD_AUDIO_BEFORE_TRANSLATION (snd (step (Transport 1 CLOSED) demo_session)) = ''true''
            \<and> \<not> translationActive (snd (step (Transport 1 CLOSED) demo_session)) Caller)
   \<and> \<not> (stream_sends (fst (translateAndForwardCallerAudio 900 ''TWFuTWFuTWFu''
           (snd (close demo_session)))) \<noteq> []
        \<longleftrightarrow> FORWARD_AUDIO_BEFORE_TRANSLATION (snd (close demo_session)) = ''true''
            \<and> \<not> translationActive (snd (close demo_session)) Caller)"
  by (simp add: stream_sends_caller stream_sends_sendAlignedAudio demo_fields onStreamState_def
      close_def close_stream_def close_openai_def Let_def)

section \<open>The translation state machine\<close>

lemma starts_not_ends: "starts l e \<Longrightarrow> \<not> ends l e"
  by (induction l e rule: starts.induct) simp_all

lemma active_message:
  "translationActive (snd (onOpenAIMessage l' t n m w)) l =
     (if starts l (Backend l' t n m) then True
      else if ends l (Backend l' t n m) then False
      else translationActive w l)"
  by (cases m) (auto simp: Let_def split: option.splits sum.splits)

lemma active_step:
  "translationActive (snd (step e w)) l =
     (if starts l e then True else if ends l e then False else translationActive w l)"
proof (cases e)
  case (Backend l' t n m)
  then show ?thesis using active_message [of l' t n m w l] by simp
next
  case (CallerMedia t p)
  then show ?thesis by (simp add: translateAndForwardCallerAudio_def Let_def)
next
  case (AgentMedia t n p)
  then show ?thesis by (simp add: translateAndForwardAgentAudio_def Let_def split: option.splits)
next
  case (Attach l' r)
  then show ?thesis by (simp add: set_streamSocket_def)
next
  case (Connection l' rs)
  then show ?thesis by (simp add: onOpenAIState_def)
next
  case (Transport r rs)
  then show ?thesis by (simp add: onStreamState_def)
next
  case CloseSession
  then show ?thesis
    by (simp add: close_def Let_def)
qed

lemma decompose_Cons:
  "(\<exists>es1 e' es2. e # es = es1 @ e' # es2 \<and> P e' \<and> Q es2)
     \<longleftrightarrow> (P e \<and> Q es) \<or> (\<exists>es1 e' es2. es = es1 @ e' # es2 \<and> P e' \<and> Q es2)"
proof
  assume "\<exists>es1 e' es2. e # es = es1 @ e' # es2 \<and> P e' \<and> Q es2"
  then obtain es1 e' es2 where d: "e # es = es1 @ e' # es2" "P e'" "Q es2" by blast
  show "(P e \<and> Q es) \<or> (\<exists>es1 e' es2. es = es1 @ e' # es2 \<and> P e' \<and> Q es2)"
  proof (cases es1)
    case Nil
    with d show ?thesis by simp
  next
    case (Cons a as)
    with d have "es = as @ e' # es2" by simp
    with d show ?thesis by blast
  qed
next
  assume "(P e \<and> Q es) \<or> (\<exists>es1 e' es2. es = es1 @ e' # es2 \<and> P e' \<and> Q es2)"
  then show "\<exists>es1 e' es2. e # es = es1 @ e' # es2 \<and> P e' \<and> Q es2"
  proof
    assume "P e \<and> Q es"
    then have "e # es = [] @ e # es \<and> P e \<and> Q es" by simp
    then show ?thesis by blast
  next
    assume "\<exists>es1 e' es2. es = es1 @ e' # es2 \<and> P e' \<and> Q es2"
    then obtain es1 e' es2 where "es = es1 @ e' # es2" "P e'" "Q es2" by blast
    then have "e # es = (e # es1) @ e' # es2 \<and> P e' \<and> Q es2" by simp
    then show ?thesis by blast
  qed
qed

lemma active_run:
  "translationActive (snd (run es w)) l \<longleftrightarrow>
     (\<exists>es1 e es2. es = es1 @ e # es2 \<and> starts l e \<and> (\<forall>x\<in>set es2. \<not> ends l x))
     \<or> (translationActive w l \<and> (\<forall>x\<in>set es. \<not> ends l x))"
proof (induction es arbitrary: w)
  case Nil
  show ?case by simp
next
  case (Cons e es)
  have "translationActive (snd (run (e # es) w)) l
      = translationActive (snd (run es (snd (step e w)))) l"
    by (simp add: Let_def del: step.simps)
  also have "\<dots> \<longleftrightarrow>
     (\<exists>es1 e' es2. es = es1 @ e' # es2 \<and> starts l e' \<and> (\<forall>x\<in>set es2. \<not> ends l x))
     \<or> (translationActive (snd (step e w)) l \<and> (\<forall>x\<in>set es. \<not> ends l x))"
    by (rule Cons.IH)
  also have "\<dots> \<longleftrightarrow>
     (\<exists>es1 e' es2. e # es = es1 @ e' # es2 \<and> starts l e' \<and> (\<forall>x\<in>set es2. \<not> ends l x))
     \<or> (translationActive w l \<and> (\<forall>x\<in>set (e # es). \<not> ends l x))"
    unfolding decompose_Cons [of e es "starts l" "\<lambda>es2. \<forall>x\<in>set es2. \<not> ends l x"]
      active_step
    using starts_not_ends [of l e] by auto
  finally show ?case .
qed

text \<open>
  Claim C2. For every leg and every sequence of events handled from the constructor's
  state, \<open>active\<close> of the leg is true exactly when a response-started message of
  that leg has been handled and no finish message of that leg (\<open>response.done\<close> or
  \<open>response.audio.done\<close>) has been handled since: false before the first start, true
  from a start until the next finish, false from then on. Events of the other leg and
  media chunks do not change it; the teardown ends it like a finish.
\<close>

theorem active_interval:
  "translationActive (snd (run es (new_AudioInterceptor flag h))) l \<longleftrightarrow>
     (\<exists>es1 e es2. es = es1 @ e # es2 \<and> starts l e \<and> (\<forall>x\<in>set es2. \<not> ends l x))"
  unfolding active_run by (simp add: new_AudioInterceptor_def)


text \<open>One translation cycle of the caller: before, during and after the response.\<close>

theorem active_interval_witness:
  "\<not> translationActive (snd (run [Backend Caller 1000 1000 (SpeechStopped ''evt_1'')]
        (new_AudioInterceptor ''true'' (heap demo_session)))) Caller
   \<and> translationActive (snd (run [Backend Caller 1000 1000 (SpeechStopped ''evt_1''),
         Backend Caller 1050 1050 (ResponseCreated (Some ''resp_1'')),
         Backend Caller 1300 1300 (AudioDelta ''TWFuTWFuTWFu'')]
        (new_AudioInterceptor ''true'' (heap demo_session)))) Caller
   \<and> \<not> translationActive (snd (run [Backend Caller 1000 1000 (SpeechStopped ''evt_1''),
         Backend Caller 1050 1050 (ResponseCreated (Some ''resp_1'')),
         Backend Caller 1300 1300 (AudioDelta ''TWFuTWFuTWFu''),
         Backend Caller 1400 1400 ResponseAudioDone,
         Backend Caller 1410 1410 ResponseDone]
        (new_AudioInterceptor ''true'' (heap demo_session)))) Caller"
proof -
  have a: "\<not> translationActive (snd (run [Backend Caller 1000 1000 (SpeechStopped ''evt_1'')]
        (new_AudioInterceptor ''true'' (heap demo_session)))) Caller"
    by (simp add: new_AudioInterceptor_def Let_def sendMessageToOpenAI_def)
  have "[Backend Caller 1000 1000 (SpeechStopped ''evt_1''),
         Backend Caller 1050 1050 (ResponseCreated (Some ''resp_1'')),
         Backend Caller 1300 1300 (AudioDelta ''TWFuTWFuTWFu'')]
       = [Backend Caller 1000 1000 (SpeechStopped ''evt_1'')]
         @ Backend Caller 1050 1050 (ResponseCreated (Some ''resp_1''))
         # [Backend Caller 1300 1300 (AudioDelta ''TWFuTWFuTWFu'')]
       \<and> starts Caller (Backend Caller 1050 1050 (ResponseCreated (Some ''resp_1'')))
       \<and> (\<forall>x\<in>set [Backend Caller 1300 1300 (AudioDelta ''TWFuTWFuTWFu'')]. \<not> ends Caller x)"
    by simp
  then have "\<exists>es1 e es2. [Backend Caller 1000 1000 (SpeechStopped ''evt_1''),
         Backend Caller 1050 1050 (ResponseCreated (Some ''resp_1'')),
         Backend Caller 1300 1300 (AudioDelta ''TWFuTWFuTWFu'')] = es1 @ e # es2
       \<and> starts Caller e \<and> (\<forall>x\<in>set es2. \<not> ends Caller x)"
    by blast
  then have b: "translationActive (snd (run [Backend Caller 1000 1000 (SpeechStopped ''evt_1''),
         Backend Caller 1050 1050 (ResponseCreated (Some ''resp_1'')),
         Backend Caller 1300 1300 (AudioDelta ''TWFuTWFuTWFu'')]
        (new_AudioInterceptor ''true'' (heap demo_session)))) Caller"
    using active_interval [of "[Backend Caller 1000 1000 (SpeechStopped ''evt_1''),
         Backend Caller 1050 1050 (ResponseCreated (Some ''resp_1'')),
         Backend Caller 1300 1300 (AudioDelta ''TWFuTWFuTWFu'')]" "''true''" "heap demo_session" Caller]
    by blast
  have c: "\<not> translationActive (snd (run [Backend Caller 1000 1000 (SpeechStopped ''evt_1''),
         Backend Caller 1050 1050 (ResponseCreated (Some ''resp_1'')),
         Backend Caller 1300 1300 (AudioDelta ''TWFuTWFuTWFu''),
         Backend Caller 1400 1400 ResponseAudioDone,
         Backend Caller 1410 1410 ResponseDone]
        (new_AudioInterceptor ''true'' (heap demo_session)))) Caller"
    by (simp add: new_AudioInterceptor_def Let_def sendMessageToOpenAI_def)
  from a b c show ?thesis by blast
qed

section \<open>Speech timing across the speech-stopped signal\<close>

lemma speech_stopped_state:
  "snd (onOpenAIMessage l t n (SpeechStopped eid) w) =
     w\<lparr>messages := (messages w)(l := Some ((case messages w l of None \<Rightarrow> [] | Some ms \<Rightarrow> ms)
          @ [\<lparr>message_id = eid, first_audio_buffer_add_time = None,
               vad_speech_stopped_time = t\<rparr>]))\<rparr>"
  by (simp add: Let_def split: option.splits)

lemma speech_stopped_sends:
  "openai_sends l' (fst (onOpenAIMessage l t n (SpeechStopped eid) w)) =
     (if l' = l \<and> openAISocket w l = Some OPEN then [InputAudioBufferClear] else [])"
  by (simp add: Let_def openai_sends_sendMessageToOpenAI split: option.splits)

lemma speech_stopped_streams:
  "stream_sends (fst (onOpenAIMessage l t n (SpeechStopped eid) w)) = []"
  by (simp add: Let_def stream_sends_sendMessageToOpenAI split: option.splits)

lemma speech_start_message:
  "truthy (speechStartTimestamp w l) \<Longrightarrow> \<not> finishes l (Backend l' t n m) \<Longrightarrow>
     speechStartTimestamp (snd (onOpenAIMessage l' t n m w)) l = speechStartTimestamp w l"
  by (cases m) (auto simp: Let_def split: option.splits sum.splits)

lemma speech_start_step:
  assumes "truthy (speechStartTimestamp w l)" "\<not> ends l e"
  shows "speechStartTimestamp (snd (step e w)) l = speechStartTimestamp w l"
proof (cases e)
  case (Backend l' t n m)
  then show ?thesis using assms speech_start_message [of w l l' t n m] by simp
next
  case (CallerMedia t p)
  then show ?thesis using assms
    by (cases l) (simp_all add: translateAndForwardCallerAudio_def Let_def)
next
  case (AgentMedia t n p)
  then show ?thesis using assms
    by (cases l) (simp_all add: translateAndForwardAgentAudio_def Let_def split: option.splits)
next
  case (Attach l' r)
  then show ?thesis by (simp add: set_streamSocket_def)
next
  case (Connection l' rs)
  then show ?thesis by (simp add: onOpenAIState_def)
next
  case (Transport r rs)
  then show ?thesis by (simp add: onStreamState_def)
next
  case CloseSession
  then show ?thesis using assms by simp
qed

lemma speech_start_run:
  assumes "truthy (speechStartTimestamp w l)" "\<forall>x\<in>set es. \<not> ends l x"
  shows "speechStartTimestamp (snd (run es w)) l = speechStartTimestamp w l"
  using assms
proof (induction es arbitrary: w)
  case Nil
  show ?case by simp
next
  case (Cons e es)
  have s: "speechStartTimestamp (snd (step e w)) l = speechStartTimestamp w l"
    using speech_start_step [of w l e] Cons.prems by simp
  then have "truthy (speechStartTimestamp (snd (step e w)) l)" using Cons.prems by simp
  from Cons.IH [OF this] Cons.prems s show ?case by (simp add: Let_def del: step.simps)
qed

lemma timing_tracked:
  assumes "speechStartTimestamp w l = Some v" "v \<noteq> 0"
    and "translationStartTime w l = Some ts" "ts \<noteq> 0"
  shows "Log (TranslationTiming l v ts now (now - ts) (now - v))
          \<in> set (trackTranslationTiming l now
                 (w\<lparr>messages := (messages w)(l := record_first_chunk now (messages w l))\<rparr>))"
  using assms by (simp add: trackTranslationTiming_def Let_def)

lemma timing_logged:
  assumes "speechStartTimestamp w l = Some v" "v \<noteq> 0"
    and "translationStartTime w l = Some ts" "ts \<noteq> 0"
  shows "Log (TranslationTiming l v ts now (now - ts) (now - v))
          \<in> set (fst (onOpenAIMessage l now n (AudioDelta p) w))"
proof (cases "clear_due (streamSocket w (other l)) (outputState w (other l)) n")
  case True
  show ?thesis unfolding delta_throws [OF True] using timing_tracked [OF assms] by simp
next
  case False
  show ?thesis unfolding delta_returns [OF False] using timing_tracked [OF assms] by simp
qed

lemma ends_iff: "ends l e \<longleftrightarrow> e = CloseSession \<or> finishes l e"
  by (cases e) simp_all

lemma finish_clears: "finishes l e \<Longrightarrow> speechStartTimestamp (snd (step e w)) l = None"
  by (induction l e rule: finishes.induct) simp_all

lemma demo_stale_finish_fields:
  "speechStartTimestamp demo_stale_finish Caller = Some 1020"
  "translationStartTime demo_stale_finish Caller = Some 1050"
  by (simp_all add: demo_stale_finish_def demo_fields translateAndForwardCallerAudio_def
      Let_def truthy_def split: option.splits)

text \<open>
  Claim C1 as stated fails when a finish message of the leg comes between the
  speech-stopped and the response-started message, as the finish message of an earlier
  response can. The caller's first chunk at 900 sets \<open>speechStartedAt\<close>; speech stops
  at 1000; a finish message at 1010 clears the value; the next chunk at 1020 sets it anew;
  the response starts at 1050. The delay computation at the translated chunk of 1300
  reads 1020, not the 900 set before the speech-stopped message.
\<close>

theorem speech_start_stale_finish_counterexample:
  "speechStartTimestamp (snd (step (CallerMedia 900 ''TWFuTWFuTWFu'') demo_session)) Caller
     = Some 900
   \<and> demo_stale_finish =
       snd (run [Backend Caller 1000 1000 (SpeechStopped ''evt_1''),
                 Backend Caller 1010 1010 ResponseDone,
                 CallerMedia 1020 ''TWFuTWFuTWFu'',
                 Backend Caller 1050 1050 (ResponseCreated (Some ''resp_1''))]
              (snd (step (CallerMedia 900 ''TWFuTWFuTWFu'') demo_session)))
   \<and> speechStartTimestamp demo_stale_finish Caller = Some 1020
   \<and> translationStartTime demo_stale_finish Caller = Some 1050
   \<and> Log (TranslationTiming Caller 1020 1050 1300 250 280)
        \<in> set (fst (onOpenAIMessage Caller 1300 1300 (AudioDelta ''TWFuTWFuTWFu'')
                   demo_stale_finish))"
proof -
  have a: "speechStartTimestamp (snd (step (CallerMedia 900 ''TWFuTWFuTWFu'') demo_session))
      Caller = Some 900"
    by (simp add: translateAndForwardCallerAudio_def Let_def demo_fields truthy_def)
  have b: "demo_stale_finish =
       snd (run [Backend Caller 1000 1000 (SpeechStopped ''evt_1''),
                 Backend Caller 1010 1010 ResponseDone,
                 CallerMedia 1020 ''TWFuTWFuTWFu'',
                 Backend Caller 1050 1050 (ResponseCreated (Some ''resp_1''))]
              (snd (step (CallerMedia 900 ''TWFuTWFuTWFu'') demo_session)))"
    by (simp add: demo_stale_finish_def Let_def del: step.simps)
  have c: "Log (TranslationTiming Caller 1020 1050 1300 (1300 - 1050) (1300 - 1020))
        \<in> set (fst (onOpenAIMessage Caller 1300 1300 (AudioDelta ''TWFuTWFuTWFu'')
                   demo_stale_finish))"
    by (rule timing_logged) (simp_all add: demo_stale_finish_fields)
  from a b c show ?thesis
    by (simp add: demo_stale_finish_fields del: onOpenAIMessage.simps step.simps run.simps)
qed

text \<open>
  Claim C1, as amended. Handling the speech-stopped message of a leg changes nothing but
  the leg's sample log, to which one sample is appended; it leaves \<open>speechStartedAt\<close>
  of both legs as it was, and it sends at most the input-buffer clear, on the leg's own
  connection (exactly that when the connection is open). Of all events before the
  teardown, only a finish message of the leg changes a \<open>speechStartedAt\<close> that is set,
  and a finish message of the leg always clears it. So in any sequence in which the
  speech-stopped message precedes the response-started message, and in which no finish
  message of the leg and no teardown is handled from the speech-stopped message to the
  translated chunk, the value set before the speech-stopped message is still there when
  the chunk arrives, and it is the value the delay computation reads and logs.
\<close>

theorem speech_start_persists:
  "snd (onOpenAIMessage l t n (SpeechStopped eid) w) =
       w\<lparr>messages := (messages w)(l := Some ((case messages w l of None \<Rightarrow> [] | Some ms \<Rightarrow> ms)
            @ [\<lparr>message_id = eid, first_audio_buffer_add_time = None,
                 vad_speech_stopped_time = t\<rparr>]))\<rparr>
   \<and> speechStartTimestamp (snd (onOpenAIMessage l t n (SpeechStopped eid) w)) = speechStartTimestamp w
   \<and> openai_sends l (fst (onOpenAIMessage l t n (SpeechStopped eid) w)) =
       (if openAISocket w l = Some OPEN then [InputAudioBufferClear] else [])
   \<and> openai_sends (other l) (fst (onOpenAIMessage l t n (SpeechStopped eid) w)) = []
   \<and> stream_sends (fst (onOpenAIMessage l t n (SpeechStopped eid) w)) = []
   \<and> (truthy (speechStartTimestamp w l) \<and> e \<noteq> CloseSession
        \<and> speechStartTimestamp (snd (step e w)) l \<noteq> speechStartTimestamp w l
      \<longrightarrow> finishes l e)
   \<and> (finishes l e \<longrightarrow> speechStartTimestamp (snd (step e w)) l = None)
   \<and> (speechStartTimestamp w l = Some v \<and> v \<noteq> 0 \<and> (\<forall>x\<in>set (mid1 @ mid2). \<not> ends l x)
      \<longrightarrow> speechStartTimestamp
            (snd (run (Backend l t n (SpeechStopped eid) # mid1
                        @ Backend l t2 n2 (ResponseCreated rid) # mid2) w)) l = Some v
        \<and> (\<forall>ts. translationStartTime
                   (snd (run (Backend l t n (SpeechStopped eid) # mid1
                        @ Backend l t2 n2 (ResponseCreated rid) # mid2) w)) l = Some ts \<and> ts \<noteq> 0
             \<longrightarrow> Log (TranslationTiming l v ts now (now - ts) (now - v))
                   \<in> set (fst (onOpenAIMessage l now n3 (AudioDelta p)
                        (snd (run (Backend l t n (SpeechStopped eid) # mid1
                                @ Backend l t2 n2 (ResponseCreated rid) # mid2) w))))))"
proof -
  let ?es = "Backend l t n (SpeechStopped eid) # mid1 @ Backend l t2 n2 (ResponseCreated rid) # mid2"
  have a: "snd (onOpenAIMessage l t n (SpeechStopped eid) w) =
       w\<lparr>messages := (messages w)(l := Some ((case messages w l of None \<Rightarrow> [] | Some ms \<Rightarrow> ms)
            @ [\<lparr>message_id = eid, first_audio_buffer_add_time = None,
                 vad_speech_stopped_time = t\<rparr>]))\<rparr>"
    by (rule speech_stopped_state)
  have b: "speechStartTimestamp (snd (onOpenAIMessage l t n (SpeechStopped eid) w)) = speechStartTimestamp w"
    unfolding a by simp
  have c: "openai_sends l (fst (onOpenAIMessage l t n (SpeechStopped eid) w)) =
       (if openAISocket w l = Some OPEN then [InputAudioBufferClear] else [])"
    "openai_sends (other l) (fst (onOpenAIMessage l t n (SpeechStopped eid) w)) = []"
    "stream_sends (fst (onOpenAIMessage l t n (SpeechStopped eid) w)) = []"
    unfolding speech_stopped_sends speech_stopped_streams by simp_all
  have d: "truthy (speechStartTimestamp w l) \<and> e \<noteq> CloseSession
        \<and> speechStartTimestamp (snd (step e w)) l \<noteq> speechStartTimestamp w l
      \<longrightarrow> finishes l e"
    using speech_start_step [of w l e] ends_iff [of l e] by blast
  have f: "finishes l e \<longrightarrow> speechStartTimestamp (snd (step e w)) l = None"
    using finish_clears [of l e w] by blast
  have e: "speechStartTimestamp (snd (run ?es w)) l = Some v
        \<and> (\<forall>ts. translationStartTime (snd (run ?es w)) l = Some ts \<and> ts \<noteq> 0
             \<longrightarrow> Log (TranslationTiming l v ts now (now - ts) (now - v))
                   \<in> set (fst (onOpenAIMessage l now n3 (AudioDelta p) (snd (run ?es w)))))"
    if h: "speechStartTimestamp w l = Some v \<and> v \<noteq> 0 \<and> (\<forall>x\<in>set (mid1 @ mid2). \<not> ends l x)"
  proof -
    from h have tr: "truthy (speechStartTimestamp w l)" by (simp add: truthy_def)
    from h have ne: "\<forall>x\<in>set ?es. \<not> ends l x" by auto
    have keep: "speechStartTimestamp (snd (run ?es w)) l = Some v"
      using speech_start_run [OF tr ne] h by simp
    with h show ?thesis using timing_logged [of "snd (run ?es w)" l v _ now n3 p] by blast
  qed
  from a b c d f e show ?thesis by blast
qed

text \<open>
  The scenario of the specification: first chunk at 900, speech stopped at 1000, response
  started at 1050, translated chunk at 1300; and a finish message handled right after the
  first chunk, which clears the value.
\<close>

theorem speech_start_persists_witness:
  "speechStartTimestamp (snd (step (CallerMedia 900 ''TWFuTWFuTWFu'') demo_session)) Caller = Some 900
   \<and> finishes Caller (Backend Caller 1010 1010 ResponseDone)
   \<and> speechStartTimestamp
        (snd (step (Backend Caller 1010 1010 ResponseDone)
           (snd (step (CallerMedia 900 ''TWFuTWFuTWFu'') demo_session)))) Caller = None
   \<and> speechStartTimestamp
        (snd (run [Backend Caller 1000 1000 (SpeechStopped ''evt_1''),
                   Backend Caller 1050 1050 (ResponseCreated (Some ''resp_1''))]
              (snd (step (CallerMedia 900 ''TWFuTWFuTWFu'') demo_session)))) Caller = Some 900
   \<and> Log (TranslationTiming Caller 900 1050 1300 250 400)
        \<in> set (fst (onOpenAIMessage Caller 1300 1300 (AudioDelta ''TWFuTWFuTWFu'')
             (snd (run [Backend Caller 1000 1000 (SpeechStopped ''evt_1''),
                        Backend Caller 1050 1050 (ResponseCreated (Some ''resp_1''))]
                   (snd (step (CallerMedia 900 ''TWFuTWFuTWFu'') demo_session))))))"
proof -
  define w where "w = snd (step (CallerMedia 900 ''TWFuTWFuTWFu'') demo_session)"
  define w' where "w' = snd (run [Backend Caller 1000 1000 (SpeechStopped ''evt_1''),
                   Backend Caller 1050 1050 (ResponseCreated (Some ''resp_1''))] w)"
  have s: "speechStartTimestamp w Caller = Some 900"
    by (simp add: w_def translateAndForwardCallerAudio_def Let_def demo_fields truthy_def)
  have ts: "translationStartTime w' Caller = Some 1050"
    by (simp add: w'_def Let_def split: option.splits)
  have "speechStartTimestamp (snd (step (Backend Caller 1010 1010 ResponseDone) w)) Caller = None
     \<and> speechStartTimestamp w' Caller = Some 900
     \<and> Log (TranslationTiming Caller 900 1050 1300 (1300 - 1050) (1300 - 900))
        \<in> set (fst (onOpenAIMessage Caller 1300 1300 (AudioDelta ''TWFuTWFuTWFu'') w'))"
    using speech_start_persists [where l = Caller and t = 1000 and n = 1000 and eid = "''evt_1''"
        and w = w and e = "Backend Caller 1010 1010 ResponseDone" and v = 900 and ?mid1.0 = "[]" and ?mid2.0 = "[]"
        and ?t2.0 = 1050 and ?n2.0 = 1050 and rid = "Some ''resp_1''" and now = 1300
        and ?n3.0 = 1300 and p = "''TWFuTWFuTWFu''"] s ts
    unfolding w'_def [symmetric] append_Nil
    by (simp del: onOpenAIMessage.simps run.simps step.simps)
  with s show ?thesis unfolding w'_def w_def by simp
qed

section \<open>Teardown\<close>

lemma ss_close_closed:
  "socket (ss_close ss) \<noteq> Some OPEN" "socket (ss_close ss) \<noteq> Some CONNECTING"
  "\<not> pingInterval (ss_close ss)"
  by (cases "socket ss"; simp add: ss_close_def ws_close_def)+

lemma ws_close_closed: "ws_close rs \<noteq> OPEN" "ws_close rs \<noteq> CONNECTING"
  by (simp_all add: ws_close_def)

lemma stream_closed_ss_close: "stream_closed (ss_close ss)"
  by (simp add: stream_closed_def ss_close_closed)

lemma close_stream_heap:
  "stream_closed (heap w r) \<Longrightarrow> stream_closed (heap (close_stream l w) r)"
  by (simp add: close_stream_def stream_closed_ss_close split: option.splits)

lemma close_stream_closes:
  "streamSocket w l = Some r \<Longrightarrow> stream_closed (heap (close_stream l w) r)"
  by (simp add: close_stream_def stream_closed_ss_close)

lemma close_stream_other:
  "streamSocket (close_stream l w) l' = (if l' = l then None else streamSocket w l')"
  by (simp add: close_stream_def split: option.splits)

lemma close_streams_closed:
  assumes "streamSocket w l = Some r"
  shows "stream_closed (heap (close_stream Agent (close_stream Caller w)) r)"
proof (cases l)
  case Caller
  with assms have "stream_closed (heap (close_stream Caller w) r)"
    by (simp add: close_stream_closes)
  then show ?thesis by (rule close_stream_heap)
next
  case Agent
  with assms have "streamSocket (close_stream Caller w) Agent = Some r"
    by (simp add: close_stream_other)
  then show ?thesis by (rule close_stream_closes)
qed

lemma close_openai_fields:
  "heap (close_openai l w) = heap w"
  "streamSocket (close_openai l w) = streamSocket w"
  "messages (close_openai l w) = messages w"
  "messages (close_stream l w) = messages w"
  "openAISocket (close_stream l w) = openAISocket w"
  "openAIPingInterval (close_stream l w) = openAIPingInterval w"
  by (simp_all add: close_openai_def close_stream_def split: option.splits)

lemma close_openai_closes:
  "openAISocket w l = Some rs \<Longrightarrow>
     openAISocket (close_openai Agent (close_openai Caller w)) l = Some (ws_close rs)
     \<and> \<not> openAIPingInterval (close_openai Agent (close_openai Caller w)) l"
  by (cases l) (auto simp: close_openai_def split: option.splits)

lemma close_state:
  "snd (close w) =
     (close_openai Agent (close_openai Caller (close_stream Agent (close_stream Caller w))))
       \<lparr>translationActive := (\<lambda>_. False),
        activeResponseId := (\<lambda>_. None),
        outputState := (\<lambda>_. initialOutputState),
        lastSpeechTimestamp := (\<lambda>_. None),
        translationStartTime := (\<lambda>_. None),
        speechStartTimestamp := (\<lambda>_. None)\<rparr>"
  by (simp add: close_def Let_def)

text \<open>
  Claim C8, as amended. After \<open>close\<close>: every transport that was attached has had its
  socket closed and its keep-alive timer stopped, and the relay holds no transport any
  more; every backend connection has been closed and its keep-alive timer stopped; every
  per-leg field of the translation, speech-timing and pacing state has its initial value;
  the mean latency of each leg has been computed from the leg's sample log and reported.
  The sample logs themselves are left as they were.
\<close>

theorem close_resets:
  "(\<forall>l r. streamSocket w l = Some r \<longrightarrow>
        socket (heap (snd (close w)) r) \<noteq> Some OPEN
        \<and> socket (heap (snd (close w)) r) \<noteq> Some CONNECTING
        \<and> \<not> pingInterval (heap (snd (close w)) r))
   \<and> (\<forall>l. streamSocket (snd (close w)) l = None)
   \<and> (\<forall>l rs. openAISocket w l = Some rs \<longrightarrow>
        openAISocket (snd (close w)) l = Some (ws_close rs)
        \<and> ws_close rs \<noteq> OPEN \<and> ws_close rs \<noteq> CONNECTING
        \<and> \<not> openAIPingInterval (snd (close w)) l)
   \<and> (\<forall>l. \<not> translationActive (snd (close w)) l
        \<and> activeResponseId (snd (close w)) l = None
        \<and> translationStartTime (snd (close w)) l = None
        \<and> speechStartTimestamp (snd (close w)) l = None
        \<and> lastSpeechTimestamp (snd (close w)) l = None
        \<and> outputState (snd (close w)) l = initialOutputState)
   \<and> fst (close w) =
        [Log (AverageTimeToFirstAudioBufferAdd Caller
                (reportOnSocketTimeToFirstAudioBufferAdd (messages w Caller))),
         Log (AverageTimeToFirstAudioBufferAdd Agent
                (reportOnSocketTimeToFirstAudioBufferAdd (messages w Agent)))]
   \<and> messages (snd (close w)) = messages w"
proof -
  have a: "\<forall>l r. streamSocket w l = Some r \<longrightarrow>
        socket (heap (snd (close w)) r) \<noteq> Some OPEN
        \<and> socket (heap (snd (close w)) r) \<noteq> Some CONNECTING
        \<and> \<not> pingInterval (heap (snd (close w)) r)"
    using close_streams_closed [of w]
    by (simp add: close_state close_openai_fields stream_closed_def)
  have b: "\<forall>l. streamSocket (snd (close w)) l = None"
  proof
    fix l show "streamSocket (snd (close w)) l = None"
      by (cases l) (simp_all add: close_state close_openai_fields close_stream_other)
  qed
  have c: "\<forall>l rs. openAISocket w l = Some rs \<longrightarrow>
        openAISocket (snd (close w)) l = Some (ws_close rs)
        \<and> ws_close rs \<noteq> OPEN \<and> ws_close rs \<noteq> CONNECTING
        \<and> \<not> openAIPingInterval (snd (close w)) l"
    using close_openai_closes [of "close_stream Agent (close_stream Caller w)"]
    by (simp add: close_state close_openai_fields ws_close_closed)
  have d: "\<forall>l. \<not> translationActive (snd (close w)) l
        \<and> activeResponseId (snd (close w)) l = None
        \<and> translationStartTime (snd (close w)) l = None
        \<and> speechStartTimestamp (snd (close w)) l = None
        \<and> lastSpeechTimestamp (snd (close w)) l = None
        \<and> outputState (snd (close w)) l = initialOutputState"
    by (simp add: close_state)
  have e: "fst (close w) =
        [Log (AverageTimeToFirstAudioBufferAdd Caller
                (reportOnSocketTimeToFirstAudioBufferAdd (messages w Caller))),
         Log (AverageTimeToFirstAudioBufferAdd Agent
                (reportOnSocketTimeToFirstAudioBufferAdd (messages w Agent)))]"
    by (simp add: close_def Let_def close_openai_fields)
  have f: "messages (snd (close w)) = messages w"
    by (simp add: close_state close_openai_fields)
  from a b c d e f show ?thesis by blast
qed


lemma demo_translating_fields:
  "streamSocket demo_translating Caller = Some 0"
  "streamSocket demo_translating Agent = Some 1"
  "openAISocket demo_translating Caller = Some OPEN"
  "openAISocket demo_translating Agent = Some OPEN"
  "socket (heap demo_translating r) = Some OPEN"
  "messages demo_translating Caller =
     Some [\<lparr>message_id = ''evt_1'', first_audio_buffer_add_time = Some 1300,
            vad_speech_stopped_time = 1000\<rparr>]"
  "messages demo_translating Agent = None"
  "translationActive demo_translating Caller"
  by (simp_all add: demo_translating_def demo_fields Let_def record_first_chunk_def truthy_def
      sendTranslationOutput_def segment_elapsed_def initialOutputState_def
      split: option.splits)

text \<open>Teardown in the middle of a translation, with one sample of 300 ms recorded.\<close>

theorem close_resets_witness:
  "streamSocket demo_translating Caller = Some 0
   \<and> socket (heap (snd (close demo_translating)) 0) = Some CLOSING
   \<and> \<not> pingInterval (heap (snd (close demo_translating)) 0)
   \<and> openAISocket demo_translating Agent = Some OPEN
   \<and> openAISocket (snd (close demo_translating)) Agent = Some CLOSING
   \<and> translationActive demo_translating Caller
   \<and> \<not> translationActive (snd (close demo_translating)) Caller
   \<and> fst (close demo_translating) =
        [Log (AverageTimeToFirstAudioBufferAdd Caller 300),
         Log (AverageTimeToFirstAudioBufferAdd Agent 0)]"
proof -
  have r: "reportOnSocketTimeToFirstAudioBufferAdd (messages demo_translating Caller) = 300"
    "reportOnSocketTimeToFirstAudioBufferAdd (messages demo_translating Agent) = 0"
    by (simp_all add: demo_translating_fields reportOnSocketTimeToFirstAudioBufferAdd_def)
  have s: "socket (heap (snd (close demo_translating)) 0) = Some CLOSING"
    by (simp add: close_state close_openai_fields close_stream_def demo_translating_fields
        ss_close_def ws_close_def)
  note all = close_resets [of demo_translating]
  have p: "\<not> pingInterval (heap (snd (close demo_translating)) 0)"
    using all demo_translating_fields(1) by blast
  have q: "openAISocket (snd (close demo_translating)) Agent = Some (ws_close OPEN)"
    using all demo_translating_fields(4) by blast
  have t: "\<not> translationActive (snd (close demo_translating)) Caller"
    using all by blast
  have f: "fst (close demo_translating) =
        [Log (AverageTimeToFirstAudioBufferAdd Caller 300),
         Log (AverageTimeToFirstAudioBufferAdd Agent 0)]"
    using all r by simp
  from p q t f s show ?thesis
    by (simp add: demo_translating_fields ws_close_def)
qed

text \<open>
  Claim C8 as stated fails in its last part: the sample log of the caller still holds its
  sample after \<open>close\<close>; nothing in \<open>close\<close> empties it.
\<close>

theorem close_keeps_samples_counterexample:
  "messages (snd (close demo_translating)) Caller =
     Some [\<lparr>message_id = ''evt_1'', first_audio_buffer_add_time = Some 1300,
            vad_speech_stopped_time = 1000\<rparr>]
   \<and> messages (snd (close demo_translating)) Caller \<noteq> None
   \<and> messages (snd (close demo_translating)) Caller \<noteq> Some []"
  by (simp add: close_state close_openai_fields demo_translating_fields)

section \<open>The stop frame of a transport\<close>

lemma dispatch_kind: "\<forall>i\<in>set (fst (dispatch sem k mk cbs ss)). fst i = k"
  by (induction cbs arbitrary: ss) (simp_all add: Let_def)

lemma dispatch_listeners: "map (\<lambda>i. fst (snd i)) (fst (dispatch sem k mk cbs ss)) = cbs"
  by (induction cbs arbitrary: ss) (simp_all add: Let_def)

lemma dispatch_message:
  "\<forall>i\<in>set (fst (dispatch sem k mk cbs ss)). fst (snd (snd i)) = mk (snd (snd (snd i)))"
  by (induction cbs arbitrary: ss) (simp_all add: Let_def)

lemma quiet_no_listeners:
  "quiet_on_stop sem \<Longrightarrow> no_listeners ss \<Longrightarrow> no_listeners (sem cb (StopMsg g) ss)"
  by (simp add: quiet_on_stop_def no_listeners_def)

lemma dispatch_no_listeners:
  "quiet_on_stop sem \<Longrightarrow> no_listeners ss \<Longrightarrow>
     no_listeners (snd (dispatch sem k (\<lambda>s. StopMsg (ss_from s)) cbs ss))
     \<and> (\<forall>i\<in>set (fst (dispatch sem k (\<lambda>s. StopMsg (ss_from s)) cbs ss)).
           no_listeners (snd (snd (snd i))))"
proof (induction cbs arbitrary: ss)
  case Nil
  then show ?case by simp
next
  case (Cons cb cbs)
  have "no_listeners (sem cb (StopMsg (ss_from ss)) ss)"
    using Cons.prems by (simp add: quiet_no_listeners)
  from Cons.IH [OF Cons.prems(1) this] Cons.prems(2) show ?case by (simp add: Let_def)
qed

lemma dispatch_from:
  "\<forall>cb g s. ss_from (sem cb (StopMsg g) s) = ss_from s \<Longrightarrow>
     \<forall>i\<in>set (fst (dispatch sem k (\<lambda>s. StopMsg (ss_from s)) cbs ss)).
        fst (snd (snd i)) = StopMsg (ss_from ss)"
proof (induction cbs arbitrary: ss)
  case Nil
  then show ?case by simp
next
  case (Cons cb cbs)
  have "ss_from (sem cb (StopMsg (ss_from ss)) ss) = ss_from ss"
    using Cons.prems by simp
  with Cons.IH [OF Cons.prems, of "sem cb (StopMsg (ss_from ss)) ss"] show ?case
    by (simp add: Let_def)
qed

text \<open>
  On a transport without media, start and connected listeners, a frame invokes stop
  listeners only, and these are given stop messages only.
\<close>

lemma stopped_onMessage:
  assumes "quiet_on_stop sem" "no_listeners ss"
  shows "no_listeners (snd (onMessage sem f ss))
     \<and> (\<forall>i\<in>set (fst (onMessage sem f ss)). fst i = KStop)"
proof (cases f)
  case Unparseable
  then show ?thesis using assms by simp
next
  case (Parsed m)
  show ?thesis
  proof (cases m)
    case (StartMsg sid ps)
    with Parsed assms show ?thesis by (simp add: no_listeners_def)
  next
    case (MediaMsg ts p)
    with Parsed assms show ?thesis by (simp add: no_listeners_def)
  next
    case (StopMsg g)
    have "ss\<lparr>onMediaCallback := [], onStartCallback := [], onConnectedCallback := []\<rparr> = ss"
      using assms(2) by (simp add: no_listeners_def)
    with Parsed StopMsg assms
      dispatch_no_listeners [of sem ss KStop "onStopCallback ss"]
      dispatch_kind [of sem KStop "\<lambda>s. StopMsg (ss_from s)" "onStopCallback ss" ss]
    show ?thesis by (simp add: Let_def)
  next
    case ConnectedMsg
    with Parsed assms show ?thesis by (simp add: no_listeners_def)
  next
    case MarkMsg
    with Parsed assms show ?thesis by simp
  next
    case UnknownMsg
    with Parsed assms show ?thesis by simp
  qed
qed

lemma stopped_frames:
  assumes "quiet_on_stop sem" "no_listeners ss"
  shows "\<forall>i\<in>set (fst (frames sem fs ss)). fst i = KStop"
  using assms(2)
proof (induction fs arbitrary: ss)
  case Nil
  show ?case by simp
next
  case (Cons f fs)
  from stopped_onMessage [OF assms(1) Cons.prems, of f]
  have a: "no_listeners (snd (onMessage sem f ss))"
    and b: "\<forall>i\<in>set (fst (onMessage sem f ss)). fst i = KStop" by simp_all
  from Cons.IH [OF a] b show ?case by (auto simp: Let_def)
qed

lemma intercept_onStart_from:
  "ps ''from'' = Some c \<Longrightarrow> c \<noteq> [] \<Longrightarrow>
     ps ''direction'' = Some ''inbound'' \<or> ps ''direction'' = Some ''outbound'' \<Longrightarrow>
     ss_from (intercept_onStart found (StartMsg sid ps) s0) = Some c"
  by (auto simp: intercept_onStart_def onMedia_def)

text \<open>
  Claim C9. When a transport handles a stop frame, with listeners that register no media,
  start or connected listener while they handle a stop message: every stop listener is
  invoked, in registration order, on a transport whose media, start and connected
  listeners are already gone, and receives the stop message carrying the transport's
  \<open>from\<close> of that moment (the one of the transport before the frame when stop listeners
  do not change it); afterwards the three arrays are empty, and whatever frames arrive
  later, the only listeners ever invoked again are stop listeners. The \<open>from\<close> is the
  one the route's start listener stored from the start frame. What listeners do on other
  messages is not restricted: the route's start listener registers the relay's media
  listener.
\<close>

theorem stop_clears_listeners:
  assumes "quiet_on_stop sem"
  shows "(\<forall>(k, cb, m, pre)\<in>set (fst (onMessage sem (Parsed (StopMsg f)) ss)).
            k = KStop \<and> no_listeners pre \<and> m = StopMsg (ss_from pre))
     \<and> map (\<lambda>i. fst (snd i)) (fst (onMessage sem (Parsed (StopMsg f)) ss)) = onStopCallback ss
     \<and> ((\<forall>cb g s. ss_from (sem cb (StopMsg g) s) = ss_from s) \<longrightarrow>
          (\<forall>(k, cb, m, pre)\<in>set (fst (onMessage sem (Parsed (StopMsg f)) ss)).
             m = StopMsg (ss_from ss)))
     \<and> no_listeners (snd (onMessage sem (Parsed (StopMsg f)) ss))
     \<and> (\<forall>(k, cb, m, pre)\<in>set (fst (frames sem fs (snd (onMessage sem (Parsed (StopMsg f)) ss)))).
          k = KStop)
     \<and> (ps ''from'' = Some c \<and> c \<noteq> []
          \<and> (ps ''direction'' = Some ''inbound'' \<or> ps ''direction'' = Some ''outbound'')
        \<longrightarrow> ss_from (intercept_onStart found (StartMsg sid ps) s0) = Some c)"
proof -
  let ?ss1 = "ss\<lparr>onMediaCallback := [], onStartCallback := [], onConnectedCallback := []\<rparr>"
  let ?mk = "\<lambda>s. StopMsg (ss_from s)"
  have eq: "onMessage sem (Parsed (StopMsg f)) ss = dispatch sem KStop ?mk (onStopCallback ss) ?ss1"
    by (simp add: Let_def)
  have n1: "no_listeners ?ss1" by (simp add: no_listeners_def)
  note d = dispatch_no_listeners [OF assms n1, of KStop "onStopCallback ss"]
  have a: "\<forall>(k, cb, m, pre)\<in>set (fst (onMessage sem (Parsed (StopMsg f)) ss)).
            k = KStop \<and> no_listeners pre \<and> m = StopMsg (ss_from pre)"
    unfolding eq
    using d dispatch_kind [of sem KStop ?mk "onStopCallback ss" ?ss1]
      dispatch_message [of sem KStop ?mk "onStopCallback ss" ?ss1]
    by fastforce
  have b: "map (\<lambda>i. fst (snd i)) (fst (onMessage sem (Parsed (StopMsg f)) ss)) = onStopCallback ss"
    unfolding eq by (rule dispatch_listeners)
  have c: "(\<forall>cb g s. ss_from (sem cb (StopMsg g) s) = ss_from s) \<longrightarrow>
          (\<forall>(k, cb, m, pre)\<in>set (fst (onMessage sem (Parsed (StopMsg f)) ss)).
             m = StopMsg (ss_from ss))"
  proof
    assume h: "\<forall>cb g s. ss_from (sem cb (StopMsg g) s) = ss_from s"
    from dispatch_from [OF h, of KStop "onStopCallback ss" ?ss1]
    show "\<forall>(k, cb, m, pre)\<in>set (fst (onMessage sem (Parsed (StopMsg f)) ss)).
             m = StopMsg (ss_from ss)"
      unfolding eq by fastforce
  qed
  have e: "no_listeners (snd (onMessage sem (Parsed (StopMsg f)) ss))"
    unfolding eq using d by simp
  have g: "\<forall>(k, cb, m, pre)\<in>set (fst (frames sem fs (snd (onMessage sem (Parsed (StopMsg f)) ss)))).
          k = KStop"
    using stopped_frames [OF assms e, of fs] by fastforce
  have i: "ps ''from'' = Some c \<and> c \<noteq> []
          \<and> (ps ''direction'' = Some ''inbound'' \<or> ps ''direction'' = Some ''outbound'')
        \<longrightarrow> ss_from (intercept_onStart found (StartMsg sid ps) s0) = Some c"
    using intercept_onStart_from [of ps c found sid s0] by blast
  from a b c e g i show ?thesis by blast
qed

text \<open>
  The listeners of the route register nothing and leave \<open>from\<close> alone on a stop message,
  whatever the route's map holds.
\<close>

lemma quiet_route_sem: "quiet_on_stop (route_sem found held)"
  by (auto simp: quiet_on_stop_def route_sem_def intercept_onStart_def intercept_onStop_def
      ss_close_def split: option.splits)

lemma route_sem_from: "ss_from (route_sem found held cb (StopMsg g) s) = ss_from s"
  by (auto simp: route_sem_def intercept_onStart_def intercept_onStop_def ss_close_def
      split: option.splits)

text \<open>
  The agent's stream with the route's own listeners and a relay in the map: the start
  frame makes the start listener store the number and register the relay's media listener,
  which the media frame then reaches; the stop frame reaches the stop listener alone, with
  the number, on a transport whose media listener is gone; the stop listener closes the
  transport; three more frames reach no listener.
\<close>

theorem stop_clears_listeners_witness:
  "quiet_on_stop (route_sem True True)
   \<and> onMediaCallback (snd (frames (route_sem True True)
        [outbound_start, Parsed (MediaMsg ''20'' ''TWFuTWFuTWFu'')] fresh_stream)) = [1]
   \<and> map (\<lambda>i. (fst i, fst (snd i)))
        (fst (frames (route_sem True True)
          [outbound_start, Parsed (MediaMsg ''20'' ''TWFuTWFuTWFu'')] fresh_stream))
       = [(KStart, 0), (KMedia, 1)]
   \<and> map (\<lambda>i. (fst i, fst (snd i), fst (snd (snd i)), onMediaCallback (snd (snd (snd i)))))
        (fst (onMessage (route_sem True True) (Parsed (StopMsg None))
           (snd (frames (route_sem True True)
              [outbound_start, Parsed (MediaMsg ''20'' ''TWFuTWFuTWFu'')] fresh_stream))))
       = [(KStop, 2, StopMsg (Some ''+15550100''), [])]
   \<and> no_listeners (snd (onMessage (route_sem True True) (Parsed (StopMsg None))
           (snd (frames (route_sem True True)
              [outbound_start, Parsed (MediaMsg ''20'' ''TWFuTWFuTWFu'')] fresh_stream))))
   \<and> socket (snd (onMessage (route_sem True True) (Parsed (StopMsg None))
           (snd (frames (route_sem True True)
              [outbound_start, Parsed (MediaMsg ''20'' ''TWFuTWFuTWFu'')] fresh_stream))))
       = Some CLOSING
   \<and> fst (frames (route_sem True True)
        [Parsed (MediaMsg ''40'' ''TWFuTWFuTWFu''), outbound_start, Parsed ConnectedMsg]
        (snd (onMessage (route_sem True True) (Parsed (StopMsg None))
           (snd (frames (route_sem True True)
              [outbound_start, Parsed (MediaMsg ''20'' ''TWFuTWFuTWFu'')] fresh_stream)))))
       = []"
proof -
  define ss1 where
    "ss1 = snd (frames (route_sem True True)
       [outbound_start, Parsed (MediaMsg ''20'' ''TWFuTWFuTWFu'')] fresh_stream)"
  have s1: "ss1 = fresh_stream\<lparr>ss_from := Some ''+15550100'', onMediaCallback := [1],
      streamSid := Some ''MZ-agent''\<rparr>"
    by (simp add: ss1_def outbound_start_def fresh_stream_def Let_def route_sem_def
        intercept_onStart_def onMedia_def)
  have m: "onMediaCallback ss1 = [1]" by (simp add: s1)
  have i: "map (\<lambda>i. (fst i, fst (snd i)))
        (fst (frames (route_sem True True)
          [outbound_start, Parsed (MediaMsg ''20'' ''TWFuTWFuTWFu'')] fresh_stream))
       = [(KStart, 0), (KMedia, 1)]"
    by (simp add: outbound_start_def fresh_stream_def Let_def route_sem_def
        intercept_onStart_def onMedia_def)
  have b: "map (\<lambda>i. (fst i, fst (snd i), fst (snd (snd i)), onMediaCallback (snd (snd (snd i)))))
        (fst (onMessage (route_sem True True) (Parsed (StopMsg None)) ss1))
       = [(KStop, 2, StopMsg (Some ''+15550100''), [])]"
    by (simp add: s1 fresh_stream_def Let_def route_sem_def)
  have c: "socket (snd (onMessage (route_sem True True) (Parsed (StopMsg None)) ss1))
       = Some CLOSING"
    by (simp add: s1 fresh_stream_def Let_def route_sem_def intercept_onStop_def ss_close_def
        ws_close_def)
  have n: "no_listeners (snd (onMessage (route_sem True True) (Parsed (StopMsg None)) ss1))"
    using stop_clears_listeners [OF quiet_route_sem, of True True None ss1] by blast
  have d: "fst (frames (route_sem True True)
        [Parsed (MediaMsg ''40'' ''TWFuTWFuTWFu''), outbound_start, Parsed ConnectedMsg]
        (snd (onMessage (route_sem True True) (Parsed (StopMsg None)) ss1))) = []"
    using n by (simp add: outbound_start_def Let_def no_listeners_def del: onMessage.simps(4))
  from m i b c n d quiet_route_sem [of True True] show ?thesis unfolding ss1_def by blast
qed


end
